theory Spec2Isabelle
  imports Complex_Main "HOL-Library.Word"
begin

unbundle bit_operations_syntax

section \<open>wavdump: a shallow embedding of \<^verbatim>\<open>src/wavdump.c\<close>\<close>

text \<open>
  The program is one C function, \<^verbatim>\<open>main\<close>. The embedding follows its stages in
  source order: reading the arguments (lines 62-83), validating them (87-101), sizing
  and filling the sample buffer (114-149), building the three headers (158-182) and
  writing the file (191-216).

  Machine integers: \<^verbatim>\<open>unsigned int\<close> is \<open>32 word\<close> and \<^verbatim>\<open>unsigned short\<close> is
  \<open>16 word\<close>, as the .wav header layout of lines 14-37 requires; \<^verbatim>\<open>int\<close> is 32 bits
  wide. A \<^verbatim>\<open>short\<close> sample is an \<open>int\<close>, and the conversion that stores a \<^verbatim>\<open>float\<close>
  into it checks the range explicitly, since C leaves an out-of-range conversion
  undefined.
\<close>

type_synonym uint = "32 word"
type_synonym ushort = "16 word"
type_synonym byte = "8 word"

subsection \<open>What the C implementation leaves to the platform\<close>

text \<open>
  \<^verbatim>\<open>sinf\<close>, \<^verbatim>\<open>M_PI\<close> and \<^verbatim>\<open>atol\<close> come from the C library, and the rounding of
  \<^verbatim>\<open>float\<close> and \<^verbatim>\<open>double\<close> arithmetic from the floating-point unit. They are
  parameters of the model: \<open>f32\<close> and \<open>f64\<close> round a real result to the nearest
  \<^verbatim>\<open>float\<close> and \<^verbatim>\<open>double\<close>, \<open>fresh\<close> gives the indeterminate contents of a block
  returned by \<^verbatim>\<open>malloc\<close>, \<open>long_bits\<close> is the width of \<^verbatim>\<open>long\<close>.
\<close>

record platform =
  sinf :: "real \<Rightarrow> real"
  m_pi :: real
  f32 :: "real \<Rightarrow> real"
  f64 :: "real \<Rightarrow> real"
  fresh :: "nat \<Rightarrow> int"
  long_bits :: nat

text \<open>
  The properties of a floating-point platform that the results below rely on:
  \<^verbatim>\<open>sinf\<close> stays within \<open>[-1, 1]\<close>, rounding to \<^verbatim>\<open>float\<close> is monotone, and every
  integer of magnitude at most \<open>2^24\<close> is a \<^verbatim>\<open>float\<close>. IEEE 754 single precision
  with any rounding mode has all three.
\<close>

definition good_platform :: "platform \<Rightarrow> bool" where
  "good_platform p \<longleftrightarrow>
     (\<forall>x. \<bar>sinf p x\<bar> \<le> 1) \<and>
     (\<forall>x y. x \<le> y \<longrightarrow> f32 p x \<le> f32 p y) \<and>
     (\<forall>k::int. \<bar>k\<bar> \<le> 2 ^ 24 \<longrightarrow> f32 p (real_of_int k) = real_of_int k)"

text \<open>
  The exact platform: real arithmetic with no rounding, the mathematical sine and
  \<open>\<pi>\<close>, a 64-bit \<^verbatim>\<open>long\<close> (LP64), zeroed fresh memory.
\<close>

definition exact :: platform where
  "exact = \<lparr> sinf = sin, m_pi = pi, f32 = (\<lambda>x. x), f64 = (\<lambda>x. x),
             fresh = (\<lambda>_. 0), long_bits = 64 \<rparr>"


datatype error =
    LongOverflow         \<comment> \<open>\<^verbatim>\<open>atol\<close> on a number that does not fit a \<^verbatim>\<open>long\<close>\<close>
  | AllocationFailed     \<comment> \<open>\<^verbatim>\<open>malloc\<close> returned NULL and the block is written\<close>
  | BufferOverrun        \<comment> \<open>a store past the end of the sample buffer\<close>
  | IntOverflow          \<comment> \<open>signed overflow in \<^verbatim>\<open>i * waverate + j\<close>\<close>
  | ShortOverflow        \<comment> \<open>a \<^verbatim>\<open>float\<close> outside the range of \<^verbatim>\<open>short\<close> stored in a sample\<close>

subsection \<open>Constants (lines 5-6)\<close>

definition MIN_FREQ :: uint where "MIN_FREQ = 20"
definition MAX_FREQ :: uint where "MAX_FREQ = 22050"

subsection \<open>The header structures (lines 14-37)\<close>

record wave_riffhead =
  chunk0id :: string
  chunk0size :: uint
  format :: string

record wave_frmthead =
  chunk1id :: string
  clsize :: uint
  audioformat :: ushort
  audiochannels :: ushort
  samplerate :: uint
  byterate :: uint
  blockalign :: ushort
  bitspersample :: ushort

record wave_datahead =
  chunk2id :: string
  chunk2size :: uint

text \<open>
  \<^verbatim>\<open>sizeof\<close> of the three structures: four-byte \<^verbatim>\<open>char[4]\<close> and \<^verbatim>\<open>unsigned int\<close>
  members and two-byte \<^verbatim>\<open>unsigned short\<close> members, each at its natural alignment, so
  there is no padding.
\<close>

definition sizeof_riffhead :: int where "sizeof_riffhead = 4 + 4 + 4"
definition sizeof_frmthead :: int where "sizeof_frmthead = 4 + 4 + 2 + 2 + 4 + 4 + 2 + 2"
definition sizeof_datahead :: int where "sizeof_datahead = 4 + 4"

subsection \<open>Reading the command line (lines 62-83)\<close>

text \<open>
  \<^verbatim>\<open>atol\<close> of the C library: skip white space, read an optional sign, then decimal
  digits up to the first character that is not one; no digits give 0. A value that
  does not fit a \<^verbatim>\<open>long\<close> is undefined behaviour.
\<close>

definition isspace :: "char \<Rightarrow> bool" where
  "isspace c \<longleftrightarrow> c = CHR '' '' \<or> (9 \<le> (of_char c :: nat) \<and> (of_char c :: nat) \<le> 13)"

definition isdigit :: "char \<Rightarrow> bool" where
  "isdigit c \<longleftrightarrow> 48 \<le> (of_char c :: nat) \<and> (of_char c :: nat) \<le> 57"

fun digits :: "int \<Rightarrow> string \<Rightarrow> int" where
  "digits acc [] = acc"
| "digits acc (c # cs) =
     (if isdigit c then digits (10 * acc + (of_char c - 48)) cs else acc)"

definition atol_value :: "string \<Rightarrow> int" where
  "atol_value s =
     (case dropWhile isspace s of
        [] \<Rightarrow> 0
      | c # cs \<Rightarrow>
          if c = CHR ''-'' then - digits 0 cs
          else if c = CHR ''+'' then digits 0 cs
          else digits 0 (c # cs))"

definition atol :: "platform \<Rightarrow> string \<Rightarrow> error + int" where
  "atol p s =
     (let v = atol_value s in
      if - (2 ^ (long_bits p - 1)) \<le> v \<and> v < 2 ^ (long_bits p - 1) then Inr v
      else Inl LongOverflow)"

text \<open>
  The loop of lines 72-74: \<^verbatim>\<open>freqbuff[i] = atol(argv[3 + i])\<close>, each \<^verbatim>\<open>long\<close>
  converted to \<^verbatim>\<open>unsigned int\<close>, that is, reduced modulo \<open>2^32\<close>.
\<close>

fun read_freqs :: "platform \<Rightarrow> string list \<Rightarrow> error + uint list" where
  "read_freqs p [] = Inr []"
| "read_freqs p (a # as) =
     (case atol p a of
        Inl e \<Rightarrow> Inl e
      | Inr v \<Rightarrow>
          (case read_freqs p as of
             Inl e \<Rightarrow> Inl e
           | Inr fs \<Rightarrow> Inr (word_of_int v # fs)))"

text \<open>
  Reading \<^verbatim>\<open>argv[n]\<close>: the vector holds \<open>argc\<close> strings followed by one null
  pointer; nothing beyond that belongs to it.
\<close>

datatype arg_read = Arg string | Null | Outside

definition argv_read :: "string list \<Rightarrow> nat \<Rightarrow> arg_read" where
  "argv_read argv n =
     (if n < length argv then Arg (argv ! n)
      else if n = length argv then Null
      else Outside)"

subsection \<open>Validation (lines 87-101)\<close>

text \<open>
  The loop of lines 94-101 stops at the first frequency outside
  \<open>[MIN_FREQ, MAX_FREQ]\<close>; \<open>first_bad_freq i fs\<close> is its index, counted from \<open>i\<close>.
\<close>

fun first_bad_freq :: "nat \<Rightarrow> uint list \<Rightarrow> nat option" where
  "first_bad_freq i [] = None"
| "first_bad_freq i (f # fs) =
     (if f < MIN_FREQ \<or> f > MAX_FREQ then Some i else first_bad_freq (Suc i) fs)"

subsection \<open>The sample buffer (lines 105-149)\<close>

definition wavechnl :: int where "wavechnl = 1"
definition wavebits :: int where "wavebits = 16"

text \<open>\<^verbatim>\<open>waverate = MAX_FREQ * 2\<close>, an \<^verbatim>\<open>unsigned int\<close> stored in an \<^verbatim>\<open>int\<close>.\<close>

definition waverate :: int where "waverate = sint (MAX_FREQ * 2)"

text \<open>
  Line 123: \<^verbatim>\<open>wavesize = wavechnl * (wavebits / 8) * waverate * filetime\<close>. The three
  \<^verbatim>\<open>int\<close> factors are multiplied first; the product with the \<^verbatim>\<open>unsigned int\<close>
  \<open>filetime\<close> is unsigned, modulo \<open>2^32\<close>, and is then stored in the \<^verbatim>\<open>int\<close>
  \<open>wavesize\<close> (two's complement).
\<close>

definition wavesize_of :: "uint \<Rightarrow> int" where
  "wavesize_of filetime =
     sint (word_of_int (wavechnl * (wavebits div 8) * waverate) * filetime :: uint)"

text \<open>
  Line 124: \<^verbatim>\<open>wavebuff = (short*)malloc(wavesize)\<close>. A negative \<open>wavesize\<close> is
  converted to a \<^verbatim>\<open>size_t\<close> of at least \<open>2^31\<close> (at least \<open>2^63\<close> where \<^verbatim>\<open>size_t\<close>
  has 64 bits), which \<^verbatim>\<open>malloc\<close> refuses; the program does not test the pointer, so
  the failure surfaces at the first store. Otherwise the block holds
  \<open>wavesize div 2\<close> samples of indeterminate content.
\<close>

definition malloc_wavebuff :: "platform \<Rightarrow> int \<Rightarrow> error + int list" where
  "malloc_wavebuff p wavesize =
     (if wavesize < 0 then Inl AllocationFailed
      else Inr (map (fresh p) [0 ..< nat wavesize div 2]))"

text \<open>
  Storing a \<^verbatim>\<open>float\<close> into a \<^verbatim>\<open>short\<close>: the fraction is discarded (truncation
  toward zero); the behaviour is undefined when the integral part is not a \<^verbatim>\<open>short\<close>.
\<close>

definition trunc :: "real \<Rightarrow> int" where
  "trunc x = (if 0 \<le> x then \<lfloor>x\<rfloor> else \<lceil>x\<rceil>)"

definition to_short :: "real \<Rightarrow> error + int" where
  "to_short x =
     (if - 32768 \<le> trunc x \<and> trunc x \<le> 32767 then Inr (trunc x) else Inl ShortOverflow)"

text \<open>
  The argument of \<^verbatim>\<open>sinf\<close> on line 147, \<^verbatim>\<open>(2 * M_PI * freqbuff[k] * j) / waverate\<close>:
  three \<^verbatim>\<open>double\<close> products from left to right and a \<^verbatim>\<open>double\<close> quotient. The
  integers \<open>freqbuff[k]\<close>, \<open>j\<close> and \<open>waverate\<close> are below \<open>2^53\<close> and convert to
  \<^verbatim>\<open>double\<close> exactly.
\<close>

definition sine_arg :: "platform \<Rightarrow> uint \<Rightarrow> nat \<Rightarrow> real" where
  "sine_arg p f j =
     f64 p (f64 p (f64 p (f64 p (2 * m_pi p) * real (unat f)) * real j) / real_of_int waverate)"

text \<open>
  \<^verbatim>\<open>sinf(...) * (32765 / freqsize)\<close>: the argument is converted to \<^verbatim>\<open>float\<close>; the
  quotient \<open>32765 / freqsize\<close> has an \<^verbatim>\<open>int\<close> and an \<^verbatim>\<open>unsigned int\<close> operand, so
  it is an unsigned integer division; the product is a \<^verbatim>\<open>float\<close>. The quotient is
  at most 32765 and converts to \<^verbatim>\<open>float\<close> exactly. The divisor is not zero where the
  expression is evaluated: the loop over \<open>k\<close> runs \<open>freqsize\<close> times.
\<close>

definition amplitude :: "uint \<Rightarrow> uint" where
  "amplitude freqsize = 32765 div freqsize"

definition harmonic :: "platform \<Rightarrow> uint \<Rightarrow> uint \<Rightarrow> nat \<Rightarrow> real" where
  "harmonic p freqsize f j =
     f32 p (sinf p (f32 p (sine_arg p f j)) * real (unat (amplitude freqsize)))"

text \<open>
  The loop over \<open>k\<close> of lines 146-148, on the frequencies still to be added:
  \<^verbatim>\<open>wavebuff[idx] += ...\<close> reads the sample, converts it to \<^verbatim>\<open>float\<close> (exactly),
  adds in \<^verbatim>\<open>float\<close> and stores the sum back into the \<^verbatim>\<open>short\<close>.
\<close>

fun add_harmonics :: "platform \<Rightarrow> uint \<Rightarrow> uint list \<Rightarrow> nat \<Rightarrow> nat \<Rightarrow> int list \<Rightarrow> error + int list" where
  "add_harmonics p freqsize [] idx j wavebuff = Inr wavebuff"
| "add_harmonics p freqsize (f # fs) idx j wavebuff =
     (case to_short (f32 p (real_of_int (wavebuff ! idx) + harmonic p freqsize f j)) of
        Inl e \<Rightarrow> Inl e
      | Inr v \<Rightarrow> add_harmonics p freqsize fs idx j (wavebuff[idx := v]))"

text \<open>
  The loop over \<open>j\<close> of lines 143-149 for second \<open>i\<close>, from sample \<open>j\<close> on. The index
  \<^verbatim>\<open>i * waverate + j\<close> is an \<^verbatim>\<open>int\<close>; a store outside the block is undefined.
\<close>

function second_loop :: "platform \<Rightarrow> uint \<Rightarrow> uint list \<Rightarrow> nat \<Rightarrow> nat \<Rightarrow> int list \<Rightarrow> error + int list" where
  "second_loop p freqsize freqbuff i j wavebuff =
     (if int j < waverate then
        (let idx = i * nat waverate + j in
         if 2 ^ 31 \<le> idx then Inl IntOverflow
         else if length wavebuff \<le> idx then Inl BufferOverrun
         else
           (case add_harmonics p freqsize freqbuff idx j (wavebuff[idx := 0]) of
              Inl e \<Rightarrow> Inl e
            | Inr wavebuff' \<Rightarrow> second_loop p freqsize freqbuff i (Suc j) wavebuff'))
      else Inr wavebuff)"
  by pat_completeness auto
termination
  by (relation "measure (\<lambda>(p, freqsize, freqbuff, i, j, wavebuff). nat waverate - j)") auto

text \<open>The loop over \<open>i\<close> of line 142, from second \<open>i\<close> on.\<close>

function signal_loop :: "platform \<Rightarrow> uint \<Rightarrow> uint \<Rightarrow> uint list \<Rightarrow> nat \<Rightarrow> int list \<Rightarrow> error + int list" where
  "signal_loop p filetime freqsize freqbuff i wavebuff =
     (if i < unat filetime then
        (case second_loop p freqsize freqbuff i 0 wavebuff of
           Inl e \<Rightarrow> Inl e
         | Inr wavebuff' \<Rightarrow> signal_loop p filetime freqsize freqbuff (Suc i) wavebuff')
      else Inr wavebuff)"
  by pat_completeness auto
termination
  by (relation "measure (\<lambda>(p, filetime, freqsize, freqbuff, i, wavebuff). unat filetime - i)") auto

declare second_loop.simps [simp del] signal_loop.simps [simp del]

text \<open>
  Lines 114-149 together. \<open>freqsize\<close> is \<^verbatim>\<open>argc - 3\<close>, the number of entries of
  \<open>freqbuff\<close> (lines 69-74), as an \<^verbatim>\<open>unsigned int\<close>.
\<close>

definition synthesize :: "platform \<Rightarrow> uint \<Rightarrow> uint list \<Rightarrow> error + int list" where
  "synthesize p filetime freqbuff =
     (case malloc_wavebuff p (wavesize_of filetime) of
        Inl e \<Rightarrow> Inl e
      | Inr wavebuff \<Rightarrow>
          signal_loop p filetime (word_of_nat (length freqbuff)) freqbuff 0 wavebuff)"

text \<open>
  The value of one sample, apart from the buffer it is stored in: \<open>accumulate\<close> is
  the sample after the loop over \<open>k\<close> has added the frequencies \<open>fs\<close> to \<open>acc\<close>,
  and \<open>sample\<close> is the sample number \<open>j\<close> of a second, which line 144 starts at 0.
\<close>

fun accumulate :: "platform \<Rightarrow> uint \<Rightarrow> uint list \<Rightarrow> nat \<Rightarrow> int \<Rightarrow> error + int" where
  "accumulate p freqsize [] j acc = Inr acc"
| "accumulate p freqsize (f # fs) j acc =
     (case to_short (f32 p (real_of_int acc + harmonic p freqsize f j)) of
        Inl e \<Rightarrow> Inl e
      | Inr v \<Rightarrow> accumulate p freqsize fs j v)"

definition sample :: "platform \<Rightarrow> uint list \<Rightarrow> nat \<Rightarrow> error + int" where
  "sample p freqbuff j = accumulate p (word_of_nat (length freqbuff)) freqbuff j 0"

subsection \<open>The headers (lines 158-182)\<close>

text \<open>
  The size expression of lines 160-162 is computed in \<^verbatim>\<open>size_t\<close> and stored in an
  \<^verbatim>\<open>unsigned int\<close>: its value modulo \<open>2^32\<close>.
\<close>

definition riffhead :: "int \<Rightarrow> wave_riffhead" where
  "riffhead wavesize =
     \<lparr> chunk0id = ''RIFF'',
       chunk0size = word_of_int (sizeof_riffhead + sizeof_frmthead + sizeof_datahead + wavesize - 8),
       format = ''WAVE'' \<rparr>"

definition frmthead :: wave_frmthead where
  "frmthead =
     \<lparr> chunk1id = ''fmt '',
       clsize = word_of_int (sizeof_frmthead - 8),
       audioformat = 1,
       audiochannels = word_of_int wavechnl,
       samplerate = word_of_int waverate,
       byterate = word_of_int (wavechnl * (wavebits div 8) * waverate),
       blockalign = word_of_int (wavechnl * (wavebits div 8)),
       bitspersample = word_of_int wavebits \<rparr>"

definition datahead :: "int \<Rightarrow> wave_datahead" where
  "datahead wavesize = \<lparr> chunk2id = ''data'', chunk2size = word_of_int wavesize \<rparr>"

subsection \<open>Writing the file (lines 186-216)\<close>

text \<open>
  \<^verbatim>\<open>fwrite\<close> copies the object representation: on the little-endian host the program
  is written for, the least significant byte of every integer comes first.
\<close>

definition le16 :: "ushort \<Rightarrow> byte list" where
  "le16 w = [ucast w, ucast (drop_bit 8 w)]"

definition le32 :: "uint \<Rightarrow> byte list" where
  "le32 w = [ucast w, ucast (drop_bit 8 w), ucast (drop_bit 16 w), ucast (drop_bit 24 w)]"

definition chars :: "string \<Rightarrow> byte list" where
  "chars s = map of_char s"

definition riffhead_bytes :: "wave_riffhead \<Rightarrow> byte list" where
  "riffhead_bytes h = chars (chunk0id h) @ le32 (chunk0size h) @ chars (format h)"

definition frmthead_bytes :: "wave_frmthead \<Rightarrow> byte list" where
  "frmthead_bytes h =
     chars (chunk1id h) @ le32 (clsize h) @ le16 (audioformat h) @ le16 (audiochannels h) @
     le32 (samplerate h) @ le32 (byterate h) @ le16 (blockalign h) @ le16 (bitspersample h)"

definition datahead_bytes :: "wave_datahead \<Rightarrow> byte list" where
  "datahead_bytes h = chars (chunk2id h) @ le32 (chunk2size h)"

text \<open>The first \<open>n\<close> bytes of the sample buffer, two per \<^verbatim>\<open>short\<close>.\<close>

definition wavebuff_bytes :: "int list \<Rightarrow> nat \<Rightarrow> byte list" where
  "wavebuff_bytes wavebuff n = take n (concat (map (\<lambda>v. le16 (word_of_int v)) wavebuff))"

text \<open>
  The output file: the bytes written so far and the number of bytes the device still
  accepts. \<^verbatim>\<open>fwrite\<close> writes as much of its block as the device accepts and returns
  that count.
\<close>

record ofile =
  written :: "byte list"
  room :: nat

definition fwrite :: "byte list \<Rightarrow> ofile \<Rightarrow> nat \<times> ofile" where
  "fwrite block f =
     (let n = min (length block) (room f) in
      (n, \<lparr> written = written f @ take n block, room = room f - n \<rparr>))"

text \<open>
  Lines 203-207: four calls of \<^verbatim>\<open>fwrite\<close>, whose results are discarded, then
  \<^verbatim>\<open>fclose\<close>. What remains is the content of the file.
\<close>

definition write_out :: "wave_riffhead \<Rightarrow> wave_frmthead \<Rightarrow> wave_datahead \<Rightarrow> int list \<Rightarrow> int \<Rightarrow> ofile \<Rightarrow> byte list" where
  "write_out rh fh dh wavebuff wavesize f0 =
     (let (n1, f1) = fwrite (riffhead_bytes rh) f0;
          (n2, f2) = fwrite (frmthead_bytes fh) f1;
          (n3, f3) = fwrite (datahead_bytes dh) f2;
          (n4, f4) = fwrite (wavebuff_bytes wavebuff (nat wavesize)) f3
      in written f4)"

text \<open>The file that the four blocks make up when every write is complete.\<close>

definition wav_file :: "int \<Rightarrow> int list \<Rightarrow> byte list" where
  "wav_file wavesize wavebuff =
     riffhead_bytes (riffhead wavesize) @ frmthead_bytes frmthead @
     datahead_bytes (datahead wavesize) @ wavebuff_bytes wavebuff (nat wavesize)"

subsection \<open>The program\<close>

text \<open>
  What a run of \<^verbatim>\<open>main\<close> comes to: one of the three messages followed by
  \<^verbatim>\<open>exit(0)\<close>, the message for a file that cannot be opened, the return from
  \<^verbatim>\<open>main\<close> with its status and the file left behind, or undefined behaviour.
\<close>

datatype outcome =
    Usage
  | BadDuration string            \<comment> \<open>lines 88-91, with the text printed for \<^verbatim>\<open>argv[2]\<close>\<close>
  | BadFrequency arg_read         \<comment> \<open>lines 96-99, with what \<^verbatim>\<open>argv[5 + i]\<close> reads\<close>
  | CannotOpen string             \<comment> \<open>lines 194-200\<close>
  | Returned int "byte list"      \<comment> \<open>line 216\<close>
  | Undefined error

text \<open>
  Lines 62-101. A request that passes holds \<open>filename\<close>, \<open>filetime\<close> and \<open>freqbuff\<close>.
\<close>

definition read_and_validate :: "platform \<Rightarrow> string list \<Rightarrow> outcome + string \<times> uint \<times> uint list" where
  "read_and_validate p argv =
     (if length argv > 3 then
        (case atol p (argv ! 2) of
           Inl e \<Rightarrow> Inl (Undefined e)
         | Inr t \<Rightarrow>
             (case read_freqs p (drop 3 argv) of
                Inl e \<Rightarrow> Inl (Undefined e)
              | Inr freqbuff \<Rightarrow>
                  let filetime = (word_of_int t :: uint) in
                  if filetime = 0 then Inl (BadDuration (argv ! 2))
                  else
                    (case first_bad_freq 0 freqbuff of
                       Some i \<Rightarrow> Inl (BadFrequency (argv_read argv (5 + i)))
                     | None \<Rightarrow> Inr (argv ! 1, filetime, freqbuff))))
      else Inl Usage)"

text \<open>
  \<open>disk\<close> is \<open>None\<close> when \<^verbatim>\<open>fopen\<close> fails, and otherwise the number of bytes the
  device accepts before writes start to fail.
\<close>

definition main :: "platform \<Rightarrow> nat option \<Rightarrow> string list \<Rightarrow> outcome" where
  "main p disk argv =
     (case read_and_validate p argv of
        Inl out \<Rightarrow> out
      | Inr (filename, filetime, freqbuff) \<Rightarrow>
          (case synthesize p filetime freqbuff of
             Inl e \<Rightarrow> Undefined e
           | Inr wavebuff \<Rightarrow>
               let wavesize = wavesize_of filetime in
               (case disk of
                  None \<Rightarrow> CannotOpen filename
                | Some n \<Rightarrow>
                    Returned 0
                      (write_out (riffhead wavesize) frmthead (datahead wavesize)
                         wavebuff wavesize \<lparr> written = [], room = n \<rparr>))))"

subsection \<open>Reading the file back\<close>

text \<open>Little-endian fields at a byte offset, as a .wav decoder reads them.\<close>

definition rd16 :: "byte list \<Rightarrow> nat \<Rightarrow> ushort" where
  "rd16 bs off = ucast (bs ! off) OR push_bit 8 (ucast (bs ! (off + 1)))"

definition rd32 :: "byte list \<Rightarrow> nat \<Rightarrow> uint" where
  "rd32 bs off =
     ucast (bs ! off) OR push_bit 8 (ucast (bs ! (off + 1))) OR
     push_bit 16 (ucast (bs ! (off + 2))) OR push_bit 24 (ucast (bs ! (off + 3)))"

subsection \<open>The two-harmonic scenario as the specification words it\<close>

text \<open>
  Following the specification's sentence, not the code: at time \<open>t = n / 44100\<close> every
  frequency \<open>f\<close> of the list contributes \<open>sin (2\<pi> f t) \<times> (32765 / harmonicCount)\<close>,
  a real quotient; the contributions are added as reals and the sum is truncated once.
\<close>

definition spec_sample :: "nat list \<Rightarrow> nat \<Rightarrow> int" where
  "spec_sample fs n =
     trunc (\<Sum>f\<leftarrow>fs. sin (2 * pi * real f * (real n / 44100)) * (32765 / real (length fs)))"

section \<open>Properties of the sample buffer\<close>

subsection \<open>One sample\<close>

lemma waverate_eq: "waverate = 44100"
  by (simp add: waverate_def MAX_FREQ_def)

lemma trunc_of_int: "trunc (real_of_int k) = k"
  by (simp add: trunc_def)

lemma trunc_mono: "x \<le> y \<Longrightarrow> trunc x \<le> trunc y"
proof -
  assume xy: "x \<le> y"
  show ?thesis
  proof (cases "0 \<le> x")
    case True
    with xy show ?thesis by (simp add: trunc_def floor_mono)
  next
    case x: False
    show ?thesis
    proof (cases "0 \<le> y")
      case True
      have "\<lceil>x\<rceil> \<le> 0" using x by (simp add: ceiling_le_zero)
      moreover have "0 \<le> \<lfloor>y\<rfloor>" using True by simp
      ultimately have "\<lceil>x\<rceil> \<le> \<lfloor>y\<rfloor>" by (rule order_trans)
      with x True show ?thesis by (simp add: trunc_def)
    next
      case False
      with x xy show ?thesis by (simp add: trunc_def ceiling_mono)
    qed
  qed
qed

lemma trunc_between:
  assumes "real_of_int a \<le> x" "x \<le> real_of_int b"
  shows "a \<le> trunc x \<and> trunc x \<le> b"
  using trunc_mono [OF assms(1)] trunc_mono [OF assms(2)] by (simp add: trunc_of_int)

lemma f32_between:
  assumes g: "good_platform p" and "real_of_int a \<le> x" "x \<le> real_of_int b"
    and "\<bar>a\<bar> \<le> 2 ^ 24" "\<bar>b\<bar> \<le> 2 ^ 24"
  shows "real_of_int a \<le> f32 p x \<and> f32 p x \<le> real_of_int b"
proof -
  from g have mono: "\<And>x y. x \<le> y \<Longrightarrow> f32 p x \<le> f32 p y"
    and ex: "\<And>k::int. \<bar>k\<bar> \<le> 2 ^ 24 \<Longrightarrow> f32 p (real_of_int k) = real_of_int k"
    by (auto simp: good_platform_def)
  from mono [OF assms(2)] mono [OF assms(3)] ex [OF assms(4)] ex [OF assms(5)]
  show ?thesis by simp
qed

lemma amplitude_le: "unat (amplitude freqsize) \<le> 32765"
proof -
  have "unat (amplitude freqsize) = 32765 div unat freqsize"
    by (simp add: amplitude_def unat_div)
  also have "\<dots> \<le> 32765" by (rule div_le_dividend)
  finally show ?thesis .
qed

lemma amplitude_times:
  assumes "n < 2 ^ 32"
  shows "n * unat (amplitude (word_of_nat n)) \<le> 32765"
proof -
  have "unat (word_of_nat n :: uint) = n"
    using assms by (simp add: unat_of_nat)
  then have "unat (amplitude (word_of_nat n)) = 32765 div n"
    by (simp add: amplitude_def unat_div)
  then show ?thesis by simp
qed

lemma harmonic_bound:
  assumes g: "good_platform p"
  shows "- real (unat (amplitude freqsize)) \<le> harmonic p freqsize f j \<and>
         harmonic p freqsize f j \<le> real (unat (amplitude freqsize))"
proof -
  define A where "A = unat (amplitude freqsize)"
  define s where "s = sinf p (f32 p (sine_arg p f j))"
  have A: "A \<le> 32765" unfolding A_def by (rule amplitude_le)
  from g have "\<bar>s\<bar> \<le> 1" by (simp add: good_platform_def s_def)
  then have "\<bar>s * real A\<bar> \<le> 1 * real A"
    unfolding abs_mult by (intro mult_mono) auto
  then have b: "real_of_int (- int A) \<le> s * real A" "s * real A \<le> real_of_int (int A)"
    by auto
  have "real_of_int (- int A) \<le> f32 p (s * real A) \<and> f32 p (s * real A) \<le> real_of_int (int A)"
    using A by (intro f32_between [OF g b]) auto
  then show ?thesis by (simp add: harmonic_def A_def s_def)
qed

lemma accumulate_ok:
  assumes g: "good_platform p"
  shows "\<bar>acc\<bar> + int (length fs * unat (amplitude freqsize)) \<le> 32767 \<Longrightarrow>
         \<exists>v. accumulate p freqsize fs j acc = Inr v \<and>
             \<bar>v\<bar> \<le> \<bar>acc\<bar> + int (length fs * unat (amplitude freqsize))"
proof (induction fs arbitrary: acc)
  case Nil
  then show ?case by simp
next
  case (Cons f fs)
  define A where "A = int (unat (amplitude freqsize))"
  define x where "x = f32 p (real_of_int acc + harmonic p freqsize f j)"
  have A0: "0 \<le> A" by (simp add: A_def)
  from Cons.prems have room: "\<bar>acc\<bar> + A + int (length fs) * A \<le> 32767"
    by (simp add: A_def algebra_simps)
  have "0 \<le> int (length fs) * A" using A0 by simp
  with room have small: "\<bar>acc\<bar> + A \<le> 32767" by linarith
  from harmonic_bound [OF g, of freqsize f j]
  have h: "real_of_int (acc - A) \<le> real_of_int acc + harmonic p freqsize f j"
          "real_of_int acc + harmonic p freqsize f j \<le> real_of_int (acc + A)"
    by (simp_all add: A_def)
  have "real_of_int (acc - A) \<le> x \<and> x \<le> real_of_int (acc + A)"
    unfolding x_def using small A0 by (intro f32_between [OF g h]) auto
  then have t: "acc - A \<le> trunc x \<and> trunc x \<le> acc + A"
    by (intro trunc_between) auto
  with small A0 have sh: "to_short x = Inr (trunc x)"
    by (auto simp: to_short_def)
  from t A0 have v: "\<bar>trunc x\<bar> \<le> \<bar>acc\<bar> + A" by linarith
  with room have "\<bar>trunc x\<bar> + int (length fs * unat (amplitude freqsize)) \<le> 32767"
    by (simp add: A_def)
  from Cons.IH [OF this] obtain w where
    w: "accumulate p freqsize fs j (trunc x) = Inr w"
       "\<bar>w\<bar> \<le> \<bar>trunc x\<bar> + int (length fs * unat (amplitude freqsize))"
    by blast
  have "accumulate p freqsize (f # fs) j acc = Inr w"
    using sh w(1) by (simp add: x_def)
  moreover have "\<bar>w\<bar> \<le> \<bar>acc\<bar> + int (length (f # fs) * unat (amplitude freqsize))"
    using w(2) v by (simp add: A_def algebra_simps)
  ultimately show ?case by blast
qed

lemma sample_ok:
  assumes g: "good_platform p" and n: "length freqbuff < 2 ^ 32"
  shows "\<exists>v. sample p freqbuff j = Inr v \<and> \<bar>v\<bar> \<le> 32765"
proof -
  have "int (length freqbuff * unat (amplitude (word_of_nat (length freqbuff)))) \<le> 32765"
    using amplitude_times [OF n] by linarith
  then show ?thesis
    using accumulate_ok [OF g, of 0 freqbuff "word_of_nat (length freqbuff)" j]
    unfolding sample_def by fastforce
qed

lemma add_harmonics_accumulate:
  "idx < length wavebuff \<Longrightarrow>
   add_harmonics p freqsize fs idx j wavebuff =
     (case accumulate p freqsize fs j (wavebuff ! idx) of
        Inl e \<Rightarrow> Inl e
      | Inr v \<Rightarrow> Inr (wavebuff[idx := v]))"
  by (induction fs arbitrary: wavebuff) (auto split: sum.splits)

subsection \<open>The two loops\<close>

lemma accumulate_error:
  "accumulate p freqsize fs j acc = Inl e \<Longrightarrow> e = ShortOverflow"
  by (induction fs arbitrary: acc) (auto simp: to_short_def split: sum.splits if_splits)

lemma second_loop_unfold:
  "second_loop p freqsize freqbuff i j wavebuff =
     (if j < 44100 then
        (if 2 ^ 31 \<le> i * 44100 + j then Inl IntOverflow
         else if length wavebuff \<le> i * 44100 + j then Inl BufferOverrun
         else
           (case accumulate p freqsize freqbuff j 0 of
              Inl e \<Rightarrow> Inl e
            | Inr v \<Rightarrow> second_loop p freqsize freqbuff i (Suc j) (wavebuff[i * 44100 + j := v])))
      else Inr wavebuff)"
  by (subst second_loop.simps)
     (simp add: waverate_eq add_harmonics_accumulate Let_def split: sum.splits)

lemma second_loop_cases:
  "j \<le> 44100 \<Longrightarrow>
    (second_loop p freqsize freqbuff i j wavebuff = Inl IntOverflow \<and>
       (2 ^ 31 \<le> i * 44100 + j \<or> 2 ^ 31 \<le> length wavebuff)) \<or>
    (second_loop p freqsize freqbuff i j wavebuff = Inl BufferOverrun \<and>
       length wavebuff < i * 44100 + 44100) \<or>
    (second_loop p freqsize freqbuff i j wavebuff = Inl ShortOverflow \<and>
       (\<exists>j'. accumulate p freqsize freqbuff j' 0 = Inl ShortOverflow)) \<or>
    (\<exists>wavebuff'. second_loop p freqsize freqbuff i j wavebuff = Inr wavebuff' \<and>
       length wavebuff' = length wavebuff \<and>
       (j < 44100 \<longrightarrow> i * 44100 + 44100 \<le> length wavebuff) \<and>
       (\<forall>n < length wavebuff.
          if i * 44100 + j \<le> n \<and> n < i * 44100 + 44100
          then accumulate p freqsize freqbuff (n - i * 44100) 0 = Inr (wavebuff' ! n)
          else wavebuff' ! n = wavebuff ! n))"
proof (induction "44100 - j" arbitrary: j wavebuff)
  case 0
  then have j: "j = 44100" by simp
  then have "second_loop p freqsize freqbuff i j wavebuff = Inr wavebuff"
    by (subst second_loop_unfold) simp
  with j show ?case by auto
next
  case (Suc d)
  then have j: "j < 44100" and d: "d = 44100 - Suc j" by simp_all
  let ?idx = "i * 44100 + j"
  show ?case
  proof (cases "2 ^ 31 \<le> ?idx")
    case True
    then have "second_loop p freqsize freqbuff i j wavebuff = Inl IntOverflow"
      using j by (subst second_loop_unfold) simp
    with True show ?thesis by simp
  next
    case no_ovf: False
    show ?thesis
    proof (cases "length wavebuff \<le> ?idx")
      case True
      then have "second_loop p freqsize freqbuff i j wavebuff = Inl BufferOverrun"
        using j no_ovf by (subst second_loop_unfold) simp
      with True j show ?thesis by simp
    next
      case False
      then have idx: "?idx < length wavebuff" by simp
      show ?thesis
      proof (cases "accumulate p freqsize freqbuff j 0")
        case (Inl e)
        then have "accumulate p freqsize freqbuff j 0 = Inl ShortOverflow"
          using accumulate_error by blast
        moreover from this
        have "second_loop p freqsize freqbuff i j wavebuff = Inl ShortOverflow"
          using j no_ovf idx by (subst second_loop_unfold) simp
        ultimately show ?thesis by blast
      next
        case (Inr v)
        then have step: "second_loop p freqsize freqbuff i j wavebuff =
            second_loop p freqsize freqbuff i (Suc j) (wavebuff[?idx := v])"
          using j no_ovf idx by (subst second_loop_unfold) simp
        from Suc.hyps(1) [OF d, of "wavebuff[?idx := v]"] j
        consider
          (ovf) "second_loop p freqsize freqbuff i (Suc j) (wavebuff[?idx := v]) = Inl IntOverflow"
                "2 ^ 31 \<le> i * 44100 + Suc j \<or> 2 ^ 31 \<le> length wavebuff"
        | (run) "second_loop p freqsize freqbuff i (Suc j) (wavebuff[?idx := v]) = Inl BufferOverrun"
                "length wavebuff < i * 44100 + 44100"
        | (short) j' where
                "second_loop p freqsize freqbuff i (Suc j) (wavebuff[?idx := v]) = Inl ShortOverflow"
                "accumulate p freqsize freqbuff j' 0 = Inl ShortOverflow"
        | (ok) w where
                "second_loop p freqsize freqbuff i (Suc j) (wavebuff[?idx := v]) = Inr w"
                "length w = length wavebuff"
                "Suc j < 44100 \<longrightarrow> i * 44100 + 44100 \<le> length wavebuff"
                "\<forall>n < length wavebuff.
                   if i * 44100 + Suc j \<le> n \<and> n < i * 44100 + 44100
                   then accumulate p freqsize freqbuff (n - i * 44100) 0 = Inr (w ! n)
                   else w ! n = wavebuff[?idx := v] ! n"
          by auto
        then show ?thesis
        proof cases
          case ovf
          from ovf(2) idx have "2 ^ 31 \<le> length wavebuff" by linarith
          with ovf(1) show ?thesis by (simp add: step)
        next
          case run
          then show ?thesis by (simp add: step)
        next
          case short
          then show ?thesis unfolding step by blast
        next
          case ok
          have fits: "i * 44100 + 44100 \<le> length wavebuff"
            using ok(3) idx j by (cases "Suc j < 44100") auto
          have "if ?idx \<le> n \<and> n < i * 44100 + 44100
                then accumulate p freqsize freqbuff (n - i * 44100) 0 = Inr (w ! n)
                else w ! n = wavebuff ! n" if n: "n < length wavebuff" for n
          proof (cases "n = ?idx")
            case True
            with ok(4) n have "w ! n = v" by simp
            with True Inr j show ?thesis by simp
          next
            case False
            with ok(4) n show ?thesis by (auto split: if_splits)
          qed
          with ok(1,2) fits show ?thesis by (simp add: step)
        qed
      qed
    qed
  qed
qed

lemma signal_loop_cases:
  "i \<le> unat filetime \<Longrightarrow>
    (signal_loop p filetime freqsize freqbuff i wavebuff = Inl IntOverflow \<and>
       (2 ^ 31 \<le> i * 44100 \<or> 2 ^ 31 \<le> length wavebuff)) \<or>
    (signal_loop p filetime freqsize freqbuff i wavebuff = Inl BufferOverrun \<and>
       length wavebuff < unat filetime * 44100) \<or>
    (signal_loop p filetime freqsize freqbuff i wavebuff = Inl ShortOverflow \<and>
       (\<exists>j'. accumulate p freqsize freqbuff j' 0 = Inl ShortOverflow)) \<or>
    (\<exists>wavebuff'. signal_loop p filetime freqsize freqbuff i wavebuff = Inr wavebuff' \<and>
       length wavebuff' = length wavebuff \<and>
       (i < unat filetime \<longrightarrow> unat filetime * 44100 \<le> length wavebuff) \<and>
       (\<forall>n < length wavebuff.
          if i * 44100 \<le> n \<and> n < unat filetime * 44100
          then accumulate p freqsize freqbuff (n mod 44100) 0 = Inr (wavebuff' ! n)
          else wavebuff' ! n = wavebuff ! n))"
proof (induction "unat filetime - i" arbitrary: i wavebuff)
  case 0
  then have i: "i = unat filetime" by simp
  then have "signal_loop p filetime freqsize freqbuff i wavebuff = Inr wavebuff"
    by (subst signal_loop.simps) simp
  with i show ?case by auto
next
  case (Suc d)
  then have i: "i < unat filetime" and d: "d = unat filetime - Suc i" by simp_all
  then have next_le: "Suc i \<le> unat filetime" by simp
  have row: "i * 44100 + 44100 \<le> unat filetime * 44100"
    using next_le by (metis mult_Suc mult_le_mono1 add.commute)
  from second_loop_cases [of 0 p freqsize freqbuff i wavebuff]
  consider
    (ovf) "second_loop p freqsize freqbuff i 0 wavebuff = Inl IntOverflow"
          "2 ^ 31 \<le> i * 44100 \<or> 2 ^ 31 \<le> length wavebuff"
  | (run) "second_loop p freqsize freqbuff i 0 wavebuff = Inl BufferOverrun"
          "length wavebuff < i * 44100 + 44100"
  | (short) j' where "second_loop p freqsize freqbuff i 0 wavebuff = Inl ShortOverflow"
          "accumulate p freqsize freqbuff j' 0 = Inl ShortOverflow"
  | (ok) w where "second_loop p freqsize freqbuff i 0 wavebuff = Inr w"
          "length w = length wavebuff" "i * 44100 + 44100 \<le> length wavebuff"
          "\<forall>n < length wavebuff.
             if i * 44100 \<le> n \<and> n < i * 44100 + 44100
             then accumulate p freqsize freqbuff (n - i * 44100) 0 = Inr (w ! n)
             else w ! n = wavebuff ! n"
    by auto
  then show ?case
  proof cases
    case ovf
    have "signal_loop p filetime freqsize freqbuff i wavebuff = Inl IntOverflow"
      using i ovf(1) by (subst signal_loop.simps) simp
    with ovf(2) show ?thesis by simp
  next
    case run
    have "signal_loop p filetime freqsize freqbuff i wavebuff = Inl BufferOverrun"
      using i run(1) by (subst signal_loop.simps) simp
    with run(2) row show ?thesis by simp
  next
    case short
    have "signal_loop p filetime freqsize freqbuff i wavebuff = Inl ShortOverflow"
      using i short(1) by (subst signal_loop.simps) simp
    with short(2) show ?thesis by blast
  next
    case ok
    have step: "signal_loop p filetime freqsize freqbuff i wavebuff =
        signal_loop p filetime freqsize freqbuff (Suc i) w"
      using i ok(1) by (subst signal_loop.simps) simp
    from Suc.hyps(1) [OF d next_le, of w]
    consider
      (ovf') "signal_loop p filetime freqsize freqbuff (Suc i) w = Inl IntOverflow"
             "2 ^ 31 \<le> Suc i * 44100 \<or> 2 ^ 31 \<le> length w"
    | (run') "signal_loop p filetime freqsize freqbuff (Suc i) w = Inl BufferOverrun"
            "length w < unat filetime * 44100"
    | (short') j' where "signal_loop p filetime freqsize freqbuff (Suc i) w = Inl ShortOverflow"
            "accumulate p freqsize freqbuff j' 0 = Inl ShortOverflow"
    | (ok') w' where "signal_loop p filetime freqsize freqbuff (Suc i) w = Inr w'"
            "length w' = length w"
            "Suc i < unat filetime \<longrightarrow> unat filetime * 44100 \<le> length w"
            "\<forall>n < length w.
               if Suc i * 44100 \<le> n \<and> n < unat filetime * 44100
               then accumulate p freqsize freqbuff (n mod 44100) 0 = Inr (w' ! n)
               else w' ! n = w ! n"
      by auto
    then show ?thesis
    proof cases
      case ovf'
      from ovf'(2) ok(2,3) have "2 ^ 31 \<le> length wavebuff" by auto
      with ovf'(1) show ?thesis by (simp add: step)
    next
      case run'
      then show ?thesis by (simp add: step ok(2))
    next
      case short'
      then show ?thesis unfolding step by blast
    next
      case ok'
      have fits: "unat filetime * 44100 \<le> length wavebuff"
      proof (cases "Suc i < unat filetime")
        case True
        with ok'(3) ok(2) show ?thesis by simp
      next
        case False
        with next_le have "Suc i = unat filetime" by simp
        with ok(3) show ?thesis by (metis mult_Suc add.commute)
      qed
      have "if i * 44100 \<le> n \<and> n < unat filetime * 44100
            then accumulate p freqsize freqbuff (n mod 44100) 0 = Inr (w' ! n)
            else w' ! n = wavebuff ! n" if n: "n < length wavebuff" for n
      proof (cases "i * 44100 \<le> n \<and> n < i * 44100 + 44100")
        case True
        then have "n - i * 44100 < 44100" by auto
        then have "n mod 44100 = n - i * 44100"
          using True by (metis add.commute le_add_diff_inverse2 mod_less mod_mult_self1)
        moreover have "w' ! n = w ! n" using ok'(4) n ok(2) True by simp
        moreover have "accumulate p freqsize freqbuff (n - i * 44100) 0 = Inr (w ! n)"
          using ok(4) n True by simp
        ultimately show ?thesis using True row by simp
      next
        case False
        then have "w ! n = wavebuff ! n" using ok(4) n by auto
        moreover have "if Suc i * 44100 \<le> n \<and> n < unat filetime * 44100
                       then accumulate p freqsize freqbuff (n mod 44100) 0 = Inr (w' ! n)
                       else w' ! n = w ! n"
          using ok'(4) n ok(2) by simp
        ultimately show ?thesis using False by (auto split: if_splits)
      qed
      with ok'(1,2) ok(2) fits show ?thesis by (simp add: step)
    qed
  qed
qed

subsection \<open>The buffer as a whole\<close>

lemma wavesize_of_eq:
  "wavesize_of filetime = (88200 * int (unat filetime) + 2 ^ 31) mod 2 ^ 32 - 2 ^ 31"
proof -
  have "(88200 :: uint) * filetime = word_of_int (88200 * uint filetime)"
    by simp
  then have "sint ((88200 :: uint) * filetime) =
      (88200 * uint filetime + 2 ^ 31) mod 2 ^ 32 - 2 ^ 31"
    by (simp only: int_word_sint) simp
  then show ?thesis
    by (simp add: wavesize_of_def wavechnl_def wavebits_def waverate_eq)
qed

lemma wavesize_of_small:
  assumes "unat filetime \<le> 24347"
  shows "wavesize_of filetime = 88200 * int (unat filetime)"
proof -
  define T where "T = int (unat filetime)"
  have "0 \<le> T" "T \<le> 24347" using assms unfolding T_def by linarith+
  then have "(88200 * T + 2 ^ 31) mod 2 ^ 32 = 88200 * T + 2 ^ 31"
    by (intro mod_pos_pos_trivial) simp_all
  then show ?thesis unfolding wavesize_of_eq T_def [symmetric] by simp
qed

lemma wavesize_of_le: "wavesize_of filetime \<le> 88200 * int (unat filetime)"
proof -
  define T where "T = int (unat filetime)"
  have "0 \<le> T" unfolding T_def by linarith
  then have "(88200 * T + 2 ^ 31) mod 2 ^ 32 \<le> 88200 * T + 2 ^ 31"
    by (intro zmod_le_nonneg_dividend) simp
  then show ?thesis unfolding wavesize_of_eq T_def [symmetric] by simp
qed

lemma wavesize_of_less: "wavesize_of filetime < 2 ^ 31"
proof -
  have "(88200 * int (unat filetime) + 2 ^ 31) mod 2 ^ 32 < 2 ^ 32"
    by (rule pos_mod_bound) simp
  then show ?thesis unfolding wavesize_of_eq by simp
qed

lemma synthesize_cases:
  "(synthesize p filetime freqbuff = Inl AllocationFailed \<and> wavesize_of filetime < 0) \<or>
   (synthesize p filetime freqbuff = Inl BufferOverrun \<and> 0 \<le> wavesize_of filetime \<and>
      nat (wavesize_of filetime) div 2 < unat filetime * 44100) \<or>
   (synthesize p filetime freqbuff = Inl ShortOverflow \<and>
      (\<exists>j. sample p freqbuff j = Inl ShortOverflow)) \<or>
   (\<exists>wavebuff. synthesize p filetime freqbuff = Inr wavebuff \<and>
      wavesize_of filetime = 2 * int (length wavebuff) \<and>
      length wavebuff = unat filetime * 44100 \<and>
      (\<forall>n < length wavebuff. sample p freqbuff (n mod 44100) = Inr (wavebuff ! n)))"
proof (cases "wavesize_of filetime < 0")
  case True
  then show ?thesis by (simp add: synthesize_def malloc_wavebuff_def)
next
  case False
  define T where "T = unat filetime"
  define ws where "ws = wavesize_of filetime"
  define freqsize :: uint where "freqsize = word_of_nat (length freqbuff)"
  define buf0 where "buf0 = map (fresh p) [0 ..< nat ws div 2]"
  have ws0: "0 \<le> ws" using False by (simp add: ws_def)
  have syn: "synthesize p filetime freqbuff = signal_loop p filetime freqsize freqbuff 0 buf0"
    using False by (simp add: synthesize_def malloc_wavebuff_def freqsize_def buf0_def ws_def)
  have len0: "length buf0 = nat ws div 2" by (simp add: buf0_def)
  have wsle: "ws \<le> 88200 * int T"
    unfolding ws_def T_def by (rule wavesize_of_le)
  then have cap: "length buf0 \<le> T * 44100"
    unfolding len0 using ws0 by linarith
  have "ws < 2 ^ 31" unfolding ws_def by (rule wavesize_of_less)
  then have lt: "length buf0 < 2 ^ 31" unfolding len0 using ws0 by simp
  from signal_loop_cases [of 0 filetime p freqsize freqbuff buf0] lt
  consider
    (run) "signal_loop p filetime freqsize freqbuff 0 buf0 = Inl BufferOverrun"
          "length buf0 < T * 44100"
  | (short) j where "signal_loop p filetime freqsize freqbuff 0 buf0 = Inl ShortOverflow"
          "accumulate p freqsize freqbuff j 0 = Inl ShortOverflow"
  | (ok) w where "signal_loop p filetime freqsize freqbuff 0 buf0 = Inr w"
          "length w = length buf0" "0 < T \<longrightarrow> T * 44100 \<le> length buf0"
          "\<forall>n < length buf0.
             if n < T * 44100 then accumulate p freqsize freqbuff (n mod 44100) 0 = Inr (w ! n)
             else w ! n = buf0 ! n"
    unfolding T_def by auto
  then show ?thesis
  proof cases
    case run
    then show ?thesis using ws0 by (simp add: syn T_def len0 ws_def)
  next
    case short
    then have "sample p freqbuff j = Inl ShortOverflow" by (simp add: sample_def freqsize_def)
    with short(1) show ?thesis unfolding syn by blast
  next
    case ok
    have full: "length buf0 = T * 44100"
      using ok(3) cap by (cases "0 < T") auto
    have ws: "ws = 2 * int (length buf0)"
      using wsle ws0 full unfolding len0 by linarith
    have "sample p freqbuff (n mod 44100) = Inr (w ! n)" if "n < length buf0" for n
      using ok(4) that full by (simp add: sample_def freqsize_def)
    with ok(1,2) full ws show ?thesis by (simp add: syn T_def ws_def)
  qed
qed

lemma synthesize_ok:
  assumes g: "good_platform p" and len: "length freqbuff < 2 ^ 32"
    and t: "unat filetime \<le> 24347"
  shows "\<exists>wavebuff. synthesize p filetime freqbuff = Inr wavebuff \<and>
            wavesize_of filetime = 2 * int (length wavebuff) \<and>
            length wavebuff = unat filetime * 44100 \<and>
            (\<forall>n < length wavebuff. sample p freqbuff (n mod 44100) = Inr (wavebuff ! n))"
proof -
  have ws: "wavesize_of filetime = 88200 * int (unat filetime)"
    by (rule wavesize_of_small [OF t])
  then have a: "\<not> wavesize_of filetime < 0" by simp
  have "nat (wavesize_of filetime) div 2 = unat filetime * 44100"
    unfolding ws by linarith
  then have b: "\<not> nat (wavesize_of filetime) div 2 < unat filetime * 44100" by simp
  have c: "\<not> (\<exists>j. sample p freqbuff j = Inl ShortOverflow)"
    using sample_ok [OF g len] by (metis Inl_Inr_False)
  from synthesize_cases [of p filetime freqbuff] a b c show ?thesis by blast
qed

lemma good_exact: "good_platform exact"
  by (simp add: good_platform_def exact_def)

section \<open>The claims about the sample buffer\<close>

text \<open>
  C4. The claim: for every valid request the sample buffer holds exactly
  \<open>durationSeconds \<times> sampleRate\<close> samples. The comment of lines 118-121 says the
  same of the allocation (``a buffer big enough to hold all our samples''). Lemma
  \<open>synthesize_ok\<close> shows it for durations up to 24347 seconds. Beyond that the size
  computation of line 123 leaves the range of \<^verbatim>\<open>int\<close>: for 48696 seconds the product
  wraps to 19904 bytes, a block of 9952 samples, and the loop of lines 142-149, which
  still runs over \<open>48696 \<times> 44100\<close> samples, stores past its end.
\<close>

theorem synthesize_48696_overruns:
  "wavesize_of 48696 = 19904 \<and> synthesize exact 48696 [440] = Inl BufferOverrun"
proof -
  have ws: "wavesize_of 48696 = 19904"
    by (simp add: wavesize_of_def wavechnl_def wavebits_def waverate_eq)
  have "length [440 :: uint] < 2 ^ 32" by simp
  from sample_ok [OF good_exact this]
  have no_short: "sample exact [440] j \<noteq> Inl ShortOverflow" for j
    by (metis Inl_Inr_False)
  have no_buffer: "synthesize exact 48696 [440] \<noteq> Inr wavebuff" for wavebuff
  proof
    assume "synthesize exact 48696 [440] = Inr wavebuff"
    with synthesize_cases [of exact 48696 "[440]"]
    have "wavesize_of 48696 = 2 * int (length wavebuff)"
      and "length wavebuff = unat (48696 :: uint) * 44100"
      by auto
    with ws show False by simp
  qed
  from synthesize_cases [of exact 48696 "[440]"] ws no_short no_buffer
  have "synthesize exact 48696 [440] = Inl BufferOverrun" by auto
  with ws show ?thesis by simp
qed

text \<open>
  C5. For every frequency list (of a length that fits \<open>freqsize\<close>) and every
  duration, no store into a sample leaves the range of \<^verbatim>\<open>short\<close>: the synthesis never
  ends in \<open>ShortOverflow\<close>, the index computation never overflows, every sample of a
  finished buffer lies in \<open>[-32768, 32767]\<close>, and the loop over \<open>k\<close>, started on a
  zeroed sample as line 144 leaves it, completes with every intermediate sum in range.
  The bound does not depend on the frequencies being within \<open>[20, 22050]\<close>.
\<close>

theorem samples_within_short:
  assumes g: "good_platform p" and len: "length freqbuff < 2 ^ 32"
  shows "synthesize p filetime freqbuff \<noteq> Inl ShortOverflow \<and>
         synthesize p filetime freqbuff \<noteq> Inl IntOverflow \<and>
         (\<forall>wavebuff. synthesize p filetime freqbuff = Inr wavebuff \<longrightarrow>
            (\<forall>v \<in> set wavebuff. - 32768 \<le> v \<and> v \<le> 32767)) \<and>
         (\<forall>idx j wavebuff. idx < length wavebuff \<longrightarrow>
            (\<exists>wavebuff'.
               add_harmonics p (word_of_nat (length freqbuff)) freqbuff idx j (wavebuff[idx := 0])
                 = Inr wavebuff' \<and>
               - 32768 \<le> wavebuff' ! idx \<and> wavebuff' ! idx \<le> 32767))"
proof -
  have ok: "\<exists>v. sample p freqbuff j = Inr v \<and> \<bar>v\<bar> \<le> 32765" for j
    by (rule sample_ok [OF g len])
  then have no_short: "\<not> (\<exists>j. sample p freqbuff j = Inl ShortOverflow)"
    by (metis Inl_Inr_False)
  have 1: "synthesize p filetime freqbuff \<noteq> Inl ShortOverflow"
          "synthesize p filetime freqbuff \<noteq> Inl IntOverflow"
    using synthesize_cases [of p filetime freqbuff] no_short by auto
  have 2: "- 32768 \<le> v \<and> v \<le> 32767"
    if w: "synthesize p filetime freqbuff = Inr wavebuff" and v: "v \<in> set wavebuff"
    for wavebuff v
  proof -
    from v obtain n where n: "n < length wavebuff" "v = wavebuff ! n"
      by (auto simp: in_set_conv_nth)
    from synthesize_cases [of p filetime freqbuff] w n(1)
    have "sample p freqbuff (n mod 44100) = Inr (wavebuff ! n)" by auto
    with ok [of "n mod 44100"] n(2) show ?thesis by auto
  qed
  have 3: "\<exists>wavebuff'.
      add_harmonics p (word_of_nat (length freqbuff)) freqbuff idx j (wavebuff[idx := 0])
        = Inr wavebuff' \<and>
      - 32768 \<le> wavebuff' ! idx \<and> wavebuff' ! idx \<le> 32767"
    if idx: "idx < length wavebuff" for idx j wavebuff
  proof -
    from ok [of j] obtain v where v: "sample p freqbuff j = Inr v" "\<bar>v\<bar> \<le> 32765" by blast
    have "add_harmonics p (word_of_nat (length freqbuff)) freqbuff idx j (wavebuff[idx := 0])
        = Inr (wavebuff[idx := v])"
      using idx v(1) by (simp add: add_harmonics_accumulate sample_def)
    with v(2) idx show ?thesis by auto
  qed
  from 1 2 3 show ?thesis by blast
qed

theorem samples_within_short_witness:
  "good_platform exact \<and> length [440, 880 :: uint] < 2 ^ 32 \<and>
   synthesize exact 1 [440, 880] \<noteq> Inl ShortOverflow \<and>
   \<not> isl (synthesize exact 1 [440, 880]) \<and>
   - 32768 \<le> projr (synthesize exact 1 [440, 880]) ! 7 \<and>
   projr (synthesize exact 1 [440, 880]) ! 7 \<le> 32767 \<and>
   (0 :: nat) < length [5 :: int] \<and>
   \<not> isl (add_harmonics exact (word_of_nat (length [440, 880 :: uint])) [440, 880] 0 3 ([5][0 := 0])) \<and>
   - 32768 \<le> projr (add_harmonics exact (word_of_nat (length [440, 880 :: uint])) [440, 880] 0 3 ([5][0 := 0])) ! 0 \<and>
   projr (add_harmonics exact (word_of_nat (length [440, 880 :: uint])) [440, 880] 0 3 ([5][0 := 0])) ! 0 \<le> 32767"
proof -
  have len: "length [440, 880 :: uint] < 2 ^ 32" by simp
  have t: "unat (1 :: uint) \<le> 24347" by simp
  have z: "(0 :: nat) < length [5 :: int]" by simp
  note inst = samples_within_short [OF good_exact len, of 1]
  from synthesize_ok [OF good_exact len t] obtain w where
    w: "synthesize exact 1 [440, 880] = Inr w" and l: "length w = unat (1 :: uint) * 44100"
    by blast
  from l have "7 < length w" by simp
  then have "w ! 7 \<in> set w" by (rule nth_mem)
  with inst w have a: "- 32768 \<le> w ! 7 \<and> w ! 7 \<le> 32767" by blast
  from inst z obtain b where
    b: "add_harmonics exact (word_of_nat (length [440, 880 :: uint])) [440, 880] 0 3 ([5][0 := 0]) = Inr b"
      "- 32768 \<le> b ! 0 \<and> b ! 0 \<le> 32767"
    by blast
  from inst have s: "synthesize exact 1 [440, 880] \<noteq> Inl ShortOverflow" by blast
  show ?thesis
    unfolding b(1) using good_exact len s a b(2) z unfolding w by (simp only: sum.sel sum.disc simp_thms)
qed






section \<open>Properties of the command line\<close>


lemma first_bad_freq_Some:
  "first_bad_freq i fs = Some k \<Longrightarrow>
     i \<le> k \<and> k - i < length fs \<and> (fs ! (k - i) < MIN_FREQ \<or> MAX_FREQ < fs ! (k - i)) \<and>
     (\<forall>m < k - i. MIN_FREQ \<le> fs ! m \<and> fs ! m \<le> MAX_FREQ)"
proof (induction fs arbitrary: i)
  case Nil
  then show ?case by simp
next
  case (Cons f fs)
  show ?case
  proof (cases "f < MIN_FREQ \<or> f > MAX_FREQ")
    case True
    with Cons.prems have "k = i" by simp
    with True show ?thesis by simp
  next
    case False
    with Cons.prems have "first_bad_freq (Suc i) fs = Some k" by simp
    from Cons.IH [OF this] have ih: "Suc i \<le> k" "k - Suc i < length fs"
      "fs ! (k - Suc i) < MIN_FREQ \<or> MAX_FREQ < fs ! (k - Suc i)"
      "\<forall>m < k - Suc i. MIN_FREQ \<le> fs ! m \<and> fs ! m \<le> MAX_FREQ"
      by auto
    from ih(1) have k: "k - i = Suc (k - Suc i)" by simp
    have "MIN_FREQ \<le> (f # fs) ! m \<and> (f # fs) ! m \<le> MAX_FREQ" if "m < k - i" for m
      using that ih(4) False k by (cases m) (auto simp: not_less)
    with ih k show ?thesis by auto
  qed
qed

lemma read_freqs_Inr:
  "read_freqs p as = Inr fs \<Longrightarrow>
     length fs = length as \<and> (\<forall>k < length as. fs ! k = word_of_int (atol_value (as ! k)))"
proof (induction as arbitrary: fs)
  case Nil
  then show ?case by simp
next
  case (Cons a as)
  from Cons.prems obtain v fs' where
    v: "atol p a = Inr v" and fs': "read_freqs p as = Inr fs'" and fs: "fs = word_of_int v # fs'"
    by (auto split: sum.splits)
  from v have "v = atol_value a" by (auto simp: atol_def Let_def split: if_splits)
  with Cons.IH [OF fs'] fs show ?case by (auto simp: nth_Cons split: nat.splits)
qed

lemma read_and_validate_unfold:
  assumes "length argv > 3" "atol p (argv ! 2) = Inr t" "read_freqs p (drop 3 argv) = Inr freqbuff"
  shows "read_and_validate p argv =
     (if (word_of_int t :: uint) = 0 then Inl (BadDuration (argv ! 2))
      else case first_bad_freq 0 freqbuff of
             Some i \<Rightarrow> Inl (BadFrequency (argv_read argv (5 + i)))
           | None \<Rightarrow> Inr (argv ! 1, word_of_int t, freqbuff))"
  using assms by (simp add: read_and_validate_def Let_def)

lemma main_rejects:
  "read_and_validate p argv = Inl out \<Longrightarrow> main p disk argv = out"
  by (simp add: main_def)

lemma main_not_rejected:
  "read_and_validate p argv = Inr req \<Longrightarrow>
     main p disk argv \<noteq> Usage \<and> main p disk argv \<noteq> BadDuration s \<and>
     main p disk argv \<noteq> BadFrequency r"
  by (cases req) (auto simp: main_def Let_def split: sum.splits option.splits)

section \<open>The claims about the command line\<close>






text \<open>
  C9, as amended. A duration argument that \<^verbatim>\<open>atol\<close> reads as a negative number \<open>t\<close>
  becomes the duration \<open>t mod 2^32\<close>. If \<open>t\<close> is not a multiple of \<open>2^32\<close> that is not
  zero: the run never ends in the duration message, and with valid frequencies the
  request reaches the synthesis with the wrapped value, which is \<open>2^32 + t\<close> for
  \<open>-2^32 < t\<close>, at least \<open>2^31\<close> for \<open>-2^31 \<le> t\<close> (4294967295 for \<^verbatim>\<open>-1\<close>, where
  \<open>wavesize\<close> becomes -88200 and the allocation fails), but 1 for \<^verbatim>\<open>-4294967295\<close>. If
  \<open>t\<close> is a multiple of \<open>2^32\<close> the duration is 0 and the run ends in the duration
  message. The claim as stated has every negative number pass; where \<^verbatim>\<open>long\<close> has 64
  bits, \<^verbatim>\<open>-4294967296\<close> is read as \<open>-2^32\<close> and is rejected.
\<close>

theorem negative_duration_wraps:
  assumes "length argv > 3" and "atol p (argv ! 2) = Inr t" and "t < 0"
    and "read_freqs p (drop 3 argv) = Inr freqbuff"
  shows "uint (word_of_int t :: uint) = t mod 2 ^ 32 \<and>
         (\<not> 2 ^ 32 dvd t \<longrightarrow>
            (word_of_int t :: uint) \<noteq> 0 \<and>
            main p disk argv \<noteq> BadDuration s \<and>
            (first_bad_freq 0 freqbuff = None \<longrightarrow>
               read_and_validate p argv = Inr (argv ! 1, word_of_int t, freqbuff))) \<and>
         (2 ^ 32 dvd t \<longrightarrow>
            (word_of_int t :: uint) = 0 \<and>
            read_and_validate p argv = Inl (BadDuration (argv ! 2)) \<and>
            main p disk argv = BadDuration (argv ! 2)) \<and>
         (- (2 ^ 32) < t \<longrightarrow> uint (word_of_int t :: uint) = 2 ^ 32 + t) \<and>
         (- (2 ^ 31) \<le> t \<longrightarrow> 2 ^ 31 \<le> uint (word_of_int t :: uint))"
proof -
  note rv = read_and_validate_unfold [OF assms(1,2,4)]
  have u: "uint (word_of_int t :: uint) = t mod 2 ^ 32"
    by (simp add: uint_word_of_int)
  have a: "(word_of_int t :: uint) \<noteq> 0 \<and> main p disk argv \<noteq> BadDuration s \<and>
      (first_bad_freq 0 freqbuff = None \<longrightarrow>
         read_and_validate p argv = Inr (argv ! 1, word_of_int t, freqbuff))"
    if nd: "\<not> 2 ^ 32 dvd t"
  proof -
    have "t mod 2 ^ 32 \<noteq> 0" using nd by (simp add: dvd_eq_mod_eq_0)
    with u have nz: "(word_of_int t :: uint) \<noteq> 0" by auto
    have "main p disk argv \<noteq> BadDuration s"
    proof (cases "first_bad_freq 0 freqbuff")
      case None
      with nz have "read_and_validate p argv = Inr (argv ! 1, word_of_int t, freqbuff)"
        by (simp add: rv)
      from main_not_rejected [OF this] show ?thesis by blast
    next
      case (Some i)
      with nz have "read_and_validate p argv = Inl (BadFrequency (argv_read argv (5 + i)))"
        by (simp add: rv)
      from main_rejects [OF this] show ?thesis by simp
    qed
    moreover have "read_and_validate p argv = Inr (argv ! 1, word_of_int t, freqbuff)"
      if "first_bad_freq 0 freqbuff = None"
      using nz that by (simp add: rv)
    ultimately show ?thesis using nz by blast
  qed
  have b: "(word_of_int t :: uint) = 0 \<and>
      read_and_validate p argv = Inl (BadDuration (argv ! 2)) \<and>
      main p disk argv = BadDuration (argv ! 2)"
    if d: "2 ^ 32 dvd t"
  proof -
    have "t mod 2 ^ 32 = 0" using d by (simp add: dvd_eq_mod_eq_0)
    with u have "uint (word_of_int t :: uint) = uint (0 :: uint)" by simp
    then have z: "(word_of_int t :: uint) = 0" by (simp only: word_uint_eq_iff)
    then have r: "read_and_validate p argv = Inl (BadDuration (argv ! 2))"
      by (simp add: rv)
    from z r main_rejects [OF r] show ?thesis by blast
  qed
  have c: "uint (word_of_int t :: uint) = 2 ^ 32 + t" if lo: "- (2 ^ 32) < t"
  proof -
    have "t mod 2 ^ 32 = (t + 2 ^ 32) mod 2 ^ 32" by simp
    also have "\<dots> = t + 2 ^ 32"
      using lo assms(3) by (intro mod_pos_pos_trivial) simp_all
    finally show ?thesis using u by simp
  qed
  have d: "2 ^ 31 \<le> uint (word_of_int t :: uint)" if lo: "- (2 ^ 31) \<le> t"
  proof -
    from lo have "- (2 ^ 32) < t" by simp
    from c [OF this] lo show ?thesis by simp
  qed
  from u a b c d show ?thesis by blast
qed

theorem negative_duration_wraps_witness:
  "length [''wavdump'', ''a.wav'', ''-1'', ''440''] > 3 \<and>
   atol exact ([''wavdump'', ''a.wav'', ''-1'', ''440''] ! 2) = Inr (- 1) \<and>
   (- 1 :: int) < 0 \<and> \<not> 2 ^ 32 dvd (- 1 :: int) \<and>
   - (2 ^ 32) < (- 1 :: int) \<and> - (2 ^ 31) \<le> (- 1 :: int) \<and>
   read_freqs exact (drop 3 [''wavdump'', ''a.wav'', ''-1'', ''440'']) = Inr [440] \<and>
   first_bad_freq 0 [440] = None \<and>
   read_and_validate exact [''wavdump'', ''a.wav'', ''-1'', ''440'']
     = Inr ([''wavdump'', ''a.wav'', ''-1'', ''440''] ! 1, word_of_int (- 1), [440]) \<and>
   uint (word_of_int (- 1) :: uint) = 2 ^ 32 + (- 1) \<and>
   (word_of_int (- 1) :: uint) = 4294967295 \<and>
   wavesize_of 4294967295 = - 88200 \<and>
   main exact None [''wavdump'', ''a.wav'', ''-1'', ''440''] = Undefined AllocationFailed \<and>
   atol exact ''-4294967295'' = Inr (- 4294967295) \<and>
   read_and_validate exact [''wavdump'', ''a.wav'', ''-4294967295'', ''440'']
     = Inr (''a.wav'', 1, [440]) \<and>
   atol exact ''-8589934592'' = Inr (- 8589934592) \<and>
   (2 ^ 32 :: int) dvd - 8589934592 \<and>
   main exact None [''wavdump'', ''a.wav'', ''-8589934592'', ''440''] = BadDuration ''-8589934592''"
proof -
  let ?argv = "[''wavdump'', ''a.wav'', ''-1'', ''440'']"
  let ?argw = "[''wavdump'', ''a.wav'', ''-8589934592'', ''440'']"
  have a: "length ?argv > 3" by simp
  have b: "atol exact (?argv ! 2) = Inr (- 1)"
    by (simp add: atol_def atol_value_def exact_def isspace_def isdigit_def)
  have c: "(- 1 :: int) < 0" "\<not> 2 ^ 32 dvd (- 1 :: int)" "- (2 ^ 32) < (- 1 :: int)"
    "- (2 ^ 31) \<le> (- 1 :: int)" by simp_all
  have d: "read_freqs exact (drop 3 ?argv) = Inr [440]"
    by (simp add: atol_def atol_value_def exact_def isspace_def isdigit_def)
  have e: "first_bad_freq 0 [440] = None" by (simp add: MIN_FREQ_def MAX_FREQ_def)
  note inst = negative_duration_wraps [OF a b c(1) d, of None]
  from inst c(2) e
  have f: "read_and_validate exact ?argv = Inr (?argv ! 1, word_of_int (- 1), [440])"
    by blast
  from inst c(3) have f': "uint (word_of_int (- 1) :: uint) = 2 ^ 32 + (- 1)" by blast
  have g: "(word_of_int (- 1) :: uint) = 4294967295" by simp
  have h: "wavesize_of 4294967295 = - 88200"
    by (simp add: wavesize_of_def wavechnl_def wavebits_def waverate_eq)
  have "wavesize_of (- 1) = - 88200"
    by (simp add: wavesize_of_def wavechnl_def wavebits_def waverate_eq)
  then have i: "main exact None ?argv = Undefined AllocationFailed"
    using f by (simp add: main_def synthesize_def malloc_wavebuff_def)
  have j: "atol exact ''-4294967295'' = Inr (- 4294967295)"
    "read_and_validate exact [''wavdump'', ''a.wav'', ''-4294967295'', ''440'']
       = Inr (''a.wav'', 1, [440])"
    by (simp_all add: read_and_validate_def atol_def atol_value_def exact_def
        isspace_def isdigit_def Let_def MIN_FREQ_def MAX_FREQ_def)
  have k: "length ?argw > 3" by simp
  have l: "atol exact (?argw ! 2) = Inr (- 8589934592)"
    by (simp add: atol_def atol_value_def exact_def isspace_def isdigit_def)
  then have l': "atol exact ''-8589934592'' = Inr (- 8589934592)" by simp
  have m: "(- 8589934592 :: int) < 0" by simp
  have n: "(2 ^ 32 :: int) dvd - 8589934592" by simp
  have o: "read_freqs exact (drop 3 ?argw) = Inr [440]"
    by (simp add: atol_def atol_value_def exact_def isspace_def isdigit_def)
  from negative_duration_wraps [OF k l m o, of None] n
  have "main exact None ?argw = BadDuration (?argw ! 2)" by blast
  then have q: "main exact None ?argw = BadDuration ''-8589934592''" by simp
  from a b c d e f f' g h i j l' n q show ?thesis by (intro conjI)
qed

theorem negative_duration_rejected_counterexample:
  "atol exact ''-4294967296'' = Inr (- 4294967296) \<and> (- 4294967296 :: int) < 0 \<and>
   main exact None [''wavdump'', ''a.wav'', ''-4294967296'', ''440''] = BadDuration ''-4294967296''"
  by (simp add: main_def read_and_validate_def atol_def atol_value_def exact_def
        isspace_def isdigit_def Let_def)

text \<open>
  C10, as amended. When the first frequency outside the range is at position \<open>i\<close> of
  the list, the message shows what \<^verbatim>\<open>argv[5 + i]\<close> reads, not the offending argument
  \<^verbatim>\<open>argv[3 + i]\<close>: the argument two places further on when there is one, the null
  pointer that ends the vector when \<open>argc = 5 + i\<close>, and memory outside the vector when
  \<open>argc < 5 + i\<close>. The text shown is that of the rejected frequency only when
  \<^verbatim>\<open>argv[5 + i]\<close> exists and has the same text, which happens: for the frequencies
  \<^verbatim>\<open>19 440 19\<close> the message shows \<^verbatim>\<open>19\<close>. The claim as stated excludes that for
  every input.
\<close>

theorem rejection_shows_argv_5_plus_i:
  assumes "length argv > 3" and "atol p (argv ! 2) = Inr t" and "(word_of_int t :: uint) \<noteq> 0"
    and "read_freqs p (drop 3 argv) = Inr freqbuff" and "first_bad_freq 0 freqbuff = Some i"
  shows "main p disk argv = BadFrequency (argv_read argv (5 + i)) \<and>
         3 + i < length argv \<and>
         freqbuff ! i = word_of_int (atol_value (argv ! (3 + i))) \<and>
         (freqbuff ! i < 20 \<or> 22050 < freqbuff ! i) \<and>
         (argv_read argv (5 + i) = Arg (argv ! (3 + i)) \<longleftrightarrow>
            5 + i < length argv \<and> argv ! (5 + i) = argv ! (3 + i)) \<and>
         (argv_read argv (5 + i) = Null \<longleftrightarrow> length argv = 5 + i) \<and>
         (argv_read argv (5 + i) = Outside \<longleftrightarrow> length argv < 5 + i)"
proof -
  have rv: "read_and_validate p argv = Inl (BadFrequency (argv_read argv (5 + i)))"
    using assms(3,5) by (simp add: read_and_validate_unfold [OF assms(1,2,4)])
  from first_bad_freq_Some [OF assms(5)] have i: "i < length freqbuff"
    and bad: "freqbuff ! i < 20 \<or> 22050 < freqbuff ! i"
    by (simp_all add: MIN_FREQ_def MAX_FREQ_def)
  from read_freqs_Inr [OF assms(4)] have len: "length freqbuff = length argv - 3"
    and nth: "\<forall>k < length argv - 3. freqbuff ! k = word_of_int (atol_value (drop 3 argv ! k))"
    by simp_all
  from i len have pos: "3 + i < length argv" by simp
  with nth i len have val: "freqbuff ! i = word_of_int (atol_value (argv ! (3 + i)))"
    by simp
  have "argv_read argv (5 + i) = Arg (argv ! (3 + i)) \<longleftrightarrow>
      5 + i < length argv \<and> argv ! (5 + i) = argv ! (3 + i)"
    "argv_read argv (5 + i) = Null \<longleftrightarrow> length argv = 5 + i"
    "argv_read argv (5 + i) = Outside \<longleftrightarrow> length argv < 5 + i"
    by (auto simp: argv_read_def)
  with main_rejects [OF rv] pos val bad show ?thesis by blast
qed

theorem rejection_shows_argv_5_plus_i_witness:
  "length [''wavdump'', ''a.wav'', ''1'', ''19'', ''440'', ''880''] > 3 \<and>
   atol exact ([''wavdump'', ''a.wav'', ''1'', ''19'', ''440'', ''880''] ! 2) = Inr 1 \<and>
   (word_of_int 1 :: uint) \<noteq> 0 \<and>
   read_freqs exact (drop 3 [''wavdump'', ''a.wav'', ''1'', ''19'', ''440'', ''880'']) = Inr [19, 440, 880] \<and>
   first_bad_freq 0 [19, 440, 880] = Some 0 \<and>
   main exact None [''wavdump'', ''a.wav'', ''1'', ''19'', ''440'', ''880''] = BadFrequency (Arg ''880'') \<and>
   main exact None [''wavdump'', ''a.wav'', ''1'', ''19'', ''440''] = BadFrequency Null \<and>
   main exact None [''wavdump'', ''a.wav'', ''1'', ''19''] = BadFrequency Outside"
proof -
  let ?argv = "[''wavdump'', ''a.wav'', ''1'', ''19'', ''440'', ''880'']"
  have a: "length ?argv > 3" by simp
  have b: "atol exact (?argv ! 2) = Inr 1"
    by (simp add: atol_def atol_value_def exact_def isspace_def isdigit_def)
  have c: "(word_of_int 1 :: uint) \<noteq> 0" by simp
  have d: "read_freqs exact (drop 3 ?argv) = Inr [19, 440, 880]"
    by (simp add: atol_def atol_value_def exact_def isspace_def isdigit_def)
  have e: "first_bad_freq 0 [19, 440, 880] = Some 0" by (simp add: MIN_FREQ_def MAX_FREQ_def)
  from rejection_shows_argv_5_plus_i [OF a b c d e, of None]
  have "main exact None ?argv = BadFrequency (argv_read ?argv (5 + 0))" by blast
  then have f: "main exact None ?argv = BadFrequency (Arg ''880'')"
    by (simp add: argv_read_def)
  have g: "main exact None [''wavdump'', ''a.wav'', ''1'', ''19'', ''440''] = BadFrequency Null"
    "main exact None [''wavdump'', ''a.wav'', ''1'', ''19''] = BadFrequency Outside"
    by (simp_all add: main_def read_and_validate_def atol_def atol_value_def exact_def
        isspace_def isdigit_def Let_def MIN_FREQ_def MAX_FREQ_def argv_read_def)
  from a b c d e f g show ?thesis by (intro conjI)
qed

theorem rejection_shows_rejected_value_counterexample:
  "first_bad_freq 0 [19, 440, 19] = Some 0 \<and>
   [''wavdump'', ''a.wav'', ''1'', ''19'', ''440'', ''19''] ! (3 + 0) = ''19'' \<and>
   main exact None [''wavdump'', ''a.wav'', ''1'', ''19'', ''440'', ''19''] = BadFrequency (Arg ''19'')"
  by (simp add: main_def read_and_validate_def atol_def atol_value_def exact_def
        isspace_def isdigit_def Let_def MIN_FREQ_def MAX_FREQ_def argv_read_def)

section \<open>Properties of the file\<close>

lemma rd32_bits:
  "ucast (ucast w :: byte) OR push_bit 8 (ucast (ucast (drop_bit 8 w) :: byte)) OR
   push_bit 16 (ucast (ucast (drop_bit 16 w) :: byte)) OR
   push_bit 24 (ucast (ucast (drop_bit 24 w) :: byte)) = (w :: uint)"
proof (rule bit_word_eqI)
  fix n assume "n < LENGTH(32)"
  then consider "n < 8" | "8 \<le> n \<and> n < 16" | "16 \<le> n \<and> n < 24" | "24 \<le> n \<and> n < 32"
    by fastforce
  then show "bit (ucast (ucast w :: byte) OR push_bit 8 (ucast (ucast (drop_bit 8 w) :: byte)) OR
      push_bit 16 (ucast (ucast (drop_bit 16 w) :: byte)) OR
      push_bit 24 (ucast (ucast (drop_bit 24 w) :: byte)) :: uint) n = bit w n"
    by cases (auto simp: bit_simps)
qed

lemma fwrite_snd:
  "snd (fwrite block f) =
     \<lparr> written = written f @ take (room f) block, room = room f - length block \<rparr>"
  by (auto simp: fwrite_def Let_def min_def)

lemma write_out_take:
  "write_out rh fh dh wavebuff wavesize \<lparr> written = [], room = n \<rparr> =
     take n (riffhead_bytes rh @ frmthead_bytes fh @ datahead_bytes dh @
             wavebuff_bytes wavebuff (nat wavesize))"
proof -
  have "write_out rh fh dh wavebuff wavesize f0 =
      written (snd (fwrite (wavebuff_bytes wavebuff (nat wavesize))
        (snd (fwrite (datahead_bytes dh)
          (snd (fwrite (frmthead_bytes fh) (snd (fwrite (riffhead_bytes rh) f0))))))))" for f0
    by (simp add: write_out_def split_beta)
  then show ?thesis by (simp add: fwrite_snd)
qed

lemma main_returns:
  assumes "read_and_validate p argv = Inr (filename, filetime, freqbuff)"
    and "synthesize p filetime freqbuff = Inr wavebuff"
  shows "main p (Some n) argv = Returned 0 (take n (wav_file (wavesize_of filetime) wavebuff))"
    and "main p None argv = CannotOpen filename"
  using assms by (simp_all add: main_def Let_def write_out_take wav_file_def)

lemma frmthead_image:
  "frmthead_bytes frmthead =
     [102, 109, 116, 32, 16, 0, 0, 0, 1, 0, 1, 0, 68, 172, 0, 0, 136, 88, 1, 0, 2, 0, 16, 0]"
  by (simp add: frmthead_bytes_def frmthead_def chars_def le32_def le16_def wavechnl_def
      wavebits_def waverate_eq sizeof_frmthead_def)

lemma riffhead_image:
  "riffhead_bytes (riffhead wavesize) =
     [82, 73, 70, 70] @ le32 (word_of_int (36 + wavesize)) @ [87, 65, 86, 69]"
  by (simp add: riffhead_bytes_def riffhead_def chars_def sizeof_riffhead_def
      sizeof_frmthead_def sizeof_datahead_def add.commute)

lemma datahead_image:
  "datahead_bytes (datahead wavesize) = [100, 97, 116, 97] @ le32 (word_of_int wavesize)"
  by (simp add: datahead_bytes_def datahead_def chars_def)

lemma wav_file_image:
  "wav_file wavesize wavebuff =
     [82, 73, 70, 70] @ le32 (word_of_int (36 + wavesize)) @ [87, 65, 86, 69] @
     [102, 109, 116, 32, 16, 0, 0, 0, 1, 0, 1, 0, 68, 172, 0, 0, 136, 88, 1, 0, 2, 0, 16, 0] @
     [100, 97, 116, 97] @ le32 (word_of_int wavesize) @ wavebuff_bytes wavebuff (nat wavesize)"
  by (simp add: wav_file_def riffhead_image frmthead_image datahead_image)

lemma length_le32: "length (le32 w) = 4"
  by (simp add: le32_def)

lemma length_sample_bytes:
  "length (concat (map (\<lambda>v. le16 (word_of_int v)) wavebuff)) = 2 * length wavebuff"
  by (induction wavebuff) (simp_all add: le16_def)

lemma length_wavebuff_bytes:
  "wavesize = 2 * int (length wavebuff) \<Longrightarrow>
     length (wavebuff_bytes wavebuff (nat wavesize)) = 2 * length wavebuff"
  by (simp add: wavebuff_bytes_def length_sample_bytes)

lemma length_wav_file:
  "wavesize = 2 * int (length wavebuff) \<Longrightarrow>
     length (wav_file wavesize wavebuff) = 44 + 2 * length wavebuff"
  by (simp add: wav_file_image length_le32 length_wavebuff_bytes)

lemma synthesize_Inr:
  assumes "synthesize p filetime freqbuff = Inr wavebuff"
  shows "wavesize_of filetime = 2 * int (length wavebuff)"
    and "length wavebuff = unat filetime * 44100"
    and "\<forall>n < length wavebuff. sample p freqbuff (n mod 44100) = Inr (wavebuff ! n)"
  using synthesize_cases [of p filetime freqbuff] assms by auto

lemma header_fields:
  assumes "44 \<le> n"
  shows "take 4 (take n (wav_file wavesize wavebuff)) = chars ''RIFF''"
    and "rd32 (take n (wav_file wavesize wavebuff)) 4 = word_of_int (36 + wavesize)"
    and "take 4 (drop 8 (take n (wav_file wavesize wavebuff))) = chars ''WAVE''"
    and "take 4 (drop 12 (take n (wav_file wavesize wavebuff))) = chars ''fmt ''"
    and "rd32 (take n (wav_file wavesize wavebuff)) 16 = 16"
    and "rd16 (take n (wav_file wavesize wavebuff)) 20 = 1"
    and "rd16 (take n (wav_file wavesize wavebuff)) 22 = 1"
    and "rd32 (take n (wav_file wavesize wavebuff)) 24 = 44100"
    and "rd32 (take n (wav_file wavesize wavebuff)) 28 = 88200"
    and "rd16 (take n (wav_file wavesize wavebuff)) 32 = 2"
    and "rd16 (take n (wav_file wavesize wavebuff)) 34 = 16"
    and "take 4 (drop 36 (take n (wav_file wavesize wavebuff))) = chars ''data''"
    and "rd32 (take n (wav_file wavesize wavebuff)) 40 = word_of_int wavesize"
proof -
  define W :: uint where "W = word_of_int (36 + wavesize)"
  define V :: uint where "V = word_of_int wavesize"
  define hdr :: "byte list" where "hdr =
     [82, 73, 70, 70, ucast W, ucast (drop_bit 8 W), ucast (drop_bit 16 W), ucast (drop_bit 24 W),
      87, 65, 86, 69,
      102, 109, 116, 32, 16, 0, 0, 0, 1, 0, 1, 0, 68, 172, 0, 0, 136, 88, 1, 0, 2, 0, 16, 0,
      100, 97, 116, 97, ucast V, ucast (drop_bit 8 V), ucast (drop_bit 16 V), ucast (drop_bit 24 V)]"
  define F where "F = take n (wav_file wavesize wavebuff)"
  have len: "length hdr = 44" by (simp add: hdr_def)
  have img: "wav_file wavesize wavebuff = hdr @ wavebuff_bytes wavebuff (nat wavesize)"
    by (simp add: wav_file_image hdr_def le32_def W_def V_def)
  have F: "take 44 F = hdr"
    using assms by (simp add: F_def img len min_def)
  have nth: "F ! k = hdr ! k" if "k < 44" for k
    using that F by (metis nth_take)
  have tk: "take 4 (drop k F) = take 4 (drop k hdr)" if "k + 4 \<le> 44" for k
  proof -
    have "take 4 (drop k (take 44 F)) = take 4 (drop k F)"
      using that by (simp add: drop_take min_def)
    then show ?thesis by (simp add: F)
  qed
  have b: "hdr ! 4 = ucast W" "hdr ! 5 = ucast (drop_bit 8 W)" "hdr ! 6 = ucast (drop_bit 16 W)"
    "hdr ! 7 = ucast (drop_bit 24 W)" "hdr ! 40 = ucast V" "hdr ! 41 = ucast (drop_bit 8 V)"
    "hdr ! 42 = ucast (drop_bit 16 V)" "hdr ! 43 = ucast (drop_bit 24 V)"
    by (simp_all add: hdr_def)
  have c: "hdr ! 16 = 16" "hdr ! 17 = 0" "hdr ! 18 = 0" "hdr ! 19 = 0" "hdr ! 20 = 1"
    "hdr ! 21 = 0" "hdr ! 22 = 1" "hdr ! 23 = 0" "hdr ! 24 = 68" "hdr ! 25 = 172" "hdr ! 26 = 0"
    "hdr ! 27 = 0" "hdr ! 28 = 136" "hdr ! 29 = 88" "hdr ! 30 = 1" "hdr ! 31 = 0" "hdr ! 32 = 2"
    "hdr ! 33 = 0" "hdr ! 34 = 16" "hdr ! 35 = 0"
    by (simp_all add: hdr_def)
  have "rd32 F 4 = ucast (hdr ! 4) OR push_bit 8 (ucast (hdr ! 5)) OR
      push_bit 16 (ucast (hdr ! 6)) OR push_bit 24 (ucast (hdr ! 7))"
    by (simp add: rd32_def nth)
  also have "\<dots> = W" unfolding b by (rule rd32_bits)
  finally show "rd32 (take n (wav_file wavesize wavebuff)) 4 = word_of_int (36 + wavesize)"
    by (simp only: F_def W_def)
  have "rd32 F 40 = ucast (hdr ! 40) OR push_bit 8 (ucast (hdr ! 41)) OR
      push_bit 16 (ucast (hdr ! 42)) OR push_bit 24 (ucast (hdr ! 43))"
    by (simp add: rd32_def nth)
  also have "\<dots> = V" unfolding b by (rule rd32_bits)
  finally show "rd32 (take n (wav_file wavesize wavebuff)) 40 = word_of_int wavesize"
    by (simp only: F_def V_def)
  have "rd32 F 16 = 16" by (simp add: rd32_def nth c)
  then show "rd32 (take n (wav_file wavesize wavebuff)) 16 = 16" by (simp only: F_def)
  have "rd32 F 24 = 44100" by (simp add: rd32_def nth c)
  then show "rd32 (take n (wav_file wavesize wavebuff)) 24 = 44100" by (simp only: F_def)
  have "rd32 F 28 = 88200" by (simp add: rd32_def nth c)
  then show "rd32 (take n (wav_file wavesize wavebuff)) 28 = 88200" by (simp only: F_def)
  have "rd16 F 20 = 1" by (simp add: rd16_def nth c)
  then show "rd16 (take n (wav_file wavesize wavebuff)) 20 = 1" by (simp only: F_def)
  have "rd16 F 22 = 1" by (simp add: rd16_def nth c)
  then show "rd16 (take n (wav_file wavesize wavebuff)) 22 = 1" by (simp only: F_def)
  have "rd16 F 32 = 2" by (simp add: rd16_def nth c)
  then show "rd16 (take n (wav_file wavesize wavebuff)) 32 = 2" by (simp only: F_def)
  have "rd16 F 34 = 16" by (simp add: rd16_def nth c)
  then show "rd16 (take n (wav_file wavesize wavebuff)) 34 = 16" by (simp only: F_def)
  have "take 4 F = chars ''RIFF''" using tk [of 0] by (simp add: hdr_def chars_def)
  then show "take 4 (take n (wav_file wavesize wavebuff)) = chars ''RIFF''" by (simp only: F_def)
  have "take 4 (drop 8 F) = chars ''WAVE''" using tk [of 8] by (simp add: hdr_def chars_def)
  then show "take 4 (drop 8 (take n (wav_file wavesize wavebuff))) = chars ''WAVE''"
    by (simp only: F_def)
  have "take 4 (drop 12 F) = chars ''fmt ''" using tk [of 12] by (simp add: hdr_def chars_def)
  then show "take 4 (drop 12 (take n (wav_file wavesize wavebuff))) = chars ''fmt ''"
    by (simp only: F_def)
  have "take 4 (drop 36 F) = chars ''data''" using tk [of 36] by (simp add: hdr_def chars_def)
  then show "take 4 (drop 36 (take n (wav_file wavesize wavebuff))) = chars ''data''"
    by (simp only: F_def)
qed

lemma request_1_440:
  "read_and_validate exact [''wavdump'', ''a.wav'', ''1'', ''440''] = Inr (''a.wav'', 1, [440])"
  by (simp add: read_and_validate_def atol_def atol_value_def exact_def isspace_def isdigit_def
      Let_def MIN_FREQ_def MAX_FREQ_def)

lemma synthesize_1_440:
  "synthesize exact 1 [440] = Inr (projr (synthesize exact 1 [440]))"
  "length (projr (synthesize exact 1 [440])) = 44100"
proof -
  have "length [440 :: uint] < 2 ^ 32" "unat (1 :: uint) \<le> 24347" by simp_all
  from synthesize_ok [OF good_exact this] obtain w where
    "synthesize exact 1 [440] = Inr w" "length w = unat (1 :: uint) * 44100" by blast
  then show "synthesize exact 1 [440] = Inr (projr (synthesize exact 1 [440]))"
    "length (projr (synthesize exact 1 [440])) = 44100" by simp_all
qed

lemma uint_wavesize:
  assumes "synthesize p filetime freqbuff = Inr wavebuff"
  shows "uint (word_of_int (wavesize_of filetime) :: uint) = 2 * int (length wavebuff)"
    and "uint (word_of_int (36 + wavesize_of filetime) :: uint) = 36 + 2 * int (length wavebuff)"
proof -
  from synthesize_Inr(1) [OF assms] have ws: "wavesize_of filetime = 2 * int (length wavebuff)" .
  have "wavesize_of filetime < 2 ^ 31" by (rule wavesize_of_less)
  with ws have a: "0 \<le> wavesize_of filetime" "wavesize_of filetime < 2 ^ 32"
    "0 \<le> 36 + wavesize_of filetime" "36 + wavesize_of filetime < 2 ^ 32" by simp_all
  have "uint (word_of_int (wavesize_of filetime) :: uint) = wavesize_of filetime"
    using a(1,2) by (simp add: uint_word_of_int)
  then show "uint (word_of_int (wavesize_of filetime) :: uint) = 2 * int (length wavebuff)"
    using ws by simp
  have "uint (word_of_int (36 + wavesize_of filetime) :: uint) = 36 + wavesize_of filetime"
    using a(3,4) by (simp only: uint_word_of_int) simp
  then show "uint (word_of_int (36 + wavesize_of filetime) :: uint) = 36 + 2 * int (length wavebuff)"
    using ws by simp
qed

section \<open>The claims about the file\<close>

text \<open>
  C2. For every request that passes validation and whose synthesis completes, a file
  of which at least the 44 header bytes are written reads back as: the format chunk
  \<^verbatim>\<open>fmt \<close> of size 16 with audio format 1, 1 channel, sample rate 44100 and 16 bits
  per sample, byte rate = sample rate \<open>\<times>\<close> channels \<open>\<times>\<close> (bits per sample / 8), block
  align = channels \<open>\<times>\<close> (bits per sample / 8), and a \<^verbatim>\<open>data\<close> chunk whose size is
  twice the length of the sample buffer.
\<close>

theorem format_chunk_round_trip:
  assumes rv: "read_and_validate p argv = Inr (filename, filetime, freqbuff)"
    and syn: "synthesize p filetime freqbuff = Inr wavebuff"
    and n: "44 \<le> n"
  shows "\<exists>wav. main p (Some n) argv = Returned 0 wav \<and>
           take 4 (drop 12 wav) = chars ''fmt '' \<and> rd32 wav 16 = 16 \<and>
           rd16 wav 20 = 1 \<and> rd16 wav 22 = 1 \<and> rd32 wav 24 = 44100 \<and> rd16 wav 34 = 16 \<and>
           rd32 wav 28 = rd32 wav 24 * ucast (rd16 wav 22) * ucast (rd16 wav 34 div 8) \<and>
           rd16 wav 32 = rd16 wav 22 * (rd16 wav 34 div 8) \<and>
           take 4 (drop 36 wav) = chars ''data'' \<and>
           uint (rd32 wav 40) = 2 * int (length wavebuff)"
proof -
  define wav where "wav = take n (wav_file (wavesize_of filetime) wavebuff)"
  note h = header_fields [OF n, of "wavesize_of filetime" wavebuff, folded wav_def]
  have 1: "main p (Some n) argv = Returned 0 wav"
    unfolding wav_def by (rule main_returns(1) [OF rv syn])
  have 2: "rd32 wav 28 = rd32 wav 24 * ucast (rd16 wav 22) * ucast (rd16 wav 34 div 8)"
    unfolding h by simp
  have 3: "rd16 wav 32 = rd16 wav 22 * (rd16 wav 34 div 8)"
    unfolding h by simp
  have 4: "uint (rd32 wav 40) = 2 * int (length wavebuff)"
    unfolding h by (rule uint_wavesize(1) [OF syn])
  from 1 2 3 4 h(4,5,6,7,8,11,12) show ?thesis by blast
qed

theorem format_chunk_round_trip_witness:
  "read_and_validate exact [''wavdump'', ''a.wav'', ''1'', ''440''] = Inr (''a.wav'', 1, [440]) \<and>
   synthesize exact 1 [440] = Inr (projr (synthesize exact 1 [440])) \<and>
   (44 :: nat) \<le> 88244 \<and>
   (\<exists>wav. main exact (Some 88244) [''wavdump'', ''a.wav'', ''1'', ''440''] = Returned 0 wav \<and>
      rd16 wav 20 = 1 \<and> rd16 wav 22 = 1 \<and> rd32 wav 24 = 44100 \<and> rd16 wav 34 = 16 \<and>
      rd32 wav 28 = 88200 \<and> rd16 wav 32 = 2 \<and> uint (rd32 wav 40) = 88200)"
proof -
  have n: "(44 :: nat) \<le> 88244" by simp
  from format_chunk_round_trip [OF request_1_440 synthesize_1_440(1) n]
  obtain wav where f: "main exact (Some 88244) [''wavdump'', ''a.wav'', ''1'', ''440''] = Returned 0 wav"
    "rd16 wav 20 = 1" "rd16 wav 22 = 1" "rd32 wav 24 = 44100" "rd16 wav 34 = 16"
    "rd32 wav 28 = rd32 wav 24 * ucast (rd16 wav 22) * ucast (rd16 wav 34 div 8)"
    "rd16 wav 32 = rd16 wav 22 * (rd16 wav 34 div 8)"
    "uint (rd32 wav 40) = 2 * int (length (projr (synthesize exact 1 [440])))"
    by blast
  have "rd32 wav 28 = 88200" unfolding f(6) f(2-5) by simp
  moreover have "rd16 wav 32 = 2" unfolding f(7) f(2-5) by simp
  moreover have "uint (rd32 wav 40) = 88200" unfolding f(8) synthesize_1_440(2) by simp
  ultimately show ?thesis
    using request_1_440 synthesize_1_440(1) n f(1-5) by blast
qed

text \<open>
  C3. For the same requests, the size field of the RIFF chunk is the \<open>chunk0size\<close> of
  lines 160-162 and equals 36 plus the size of the data chunk, that is,
  \<open>sizeof(riffhead) + sizeof(frmthead) + sizeof(datahead) + dataByteSize - 8\<close>, where
  the data size is the number of raw sample bytes; when every write is complete the
  file is 44 bytes longer than its data.
\<close>

theorem riff_chunk_size:
  assumes rv: "read_and_validate p argv = Inr (filename, filetime, freqbuff)"
    and syn: "synthesize p filetime freqbuff = Inr wavebuff"
    and n: "44 \<le> n"
  shows "\<exists>wav. main p (Some n) argv = Returned 0 wav \<and>
           rd32 wav 4 = chunk0size (riffhead (wavesize_of filetime)) \<and>
           uint (rd32 wav 4) = 36 + uint (rd32 wav 40) \<and>
           uint (rd32 wav 4) =
             sizeof_riffhead + sizeof_frmthead + sizeof_datahead + uint (rd32 wav 40) - 8 \<and>
           uint (rd32 wav 40) = int (length (wavebuff_bytes wavebuff (nat (wavesize_of filetime)))) \<and>
           length (wavebuff_bytes wavebuff (nat (wavesize_of filetime))) = 2 * length wavebuff \<and>
           (44 + 2 * length wavebuff \<le> n \<longrightarrow> int (length wav) = 44 + uint (rd32 wav 40))"
proof -
  define wav where "wav = take n (wav_file (wavesize_of filetime) wavebuff)"
  note h = header_fields [OF n, of "wavesize_of filetime" wavebuff, folded wav_def]
  note ws = synthesize_Inr(1) [OF syn]
  have 1: "main p (Some n) argv = Returned 0 wav"
    unfolding wav_def by (rule main_returns(1) [OF rv syn])
  have 2: "rd32 wav 4 = chunk0size (riffhead (wavesize_of filetime))"
    unfolding h by (simp add: riffhead_def sizeof_riffhead_def sizeof_frmthead_def
        sizeof_datahead_def add.commute)
  have d: "uint (rd32 wav 40) = 2 * int (length wavebuff)"
    unfolding h by (rule uint_wavesize(1) [OF syn])
  have c: "uint (rd32 wav 4) = 36 + 2 * int (length wavebuff)"
    unfolding h by (rule uint_wavesize(2) [OF syn])
  have 3: "uint (rd32 wav 4) = 36 + uint (rd32 wav 40)"
    unfolding c d by simp
  have 4: "uint (rd32 wav 4) =
      sizeof_riffhead + sizeof_frmthead + sizeof_datahead + uint (rd32 wav 40) - 8"
    unfolding c d by (simp add: sizeof_riffhead_def sizeof_frmthead_def sizeof_datahead_def)
  have 6: "length (wavebuff_bytes wavebuff (nat (wavesize_of filetime))) = 2 * length wavebuff"
    by (rule length_wavebuff_bytes [OF ws])
  have 5: "uint (rd32 wav 40) = int (length (wavebuff_bytes wavebuff (nat (wavesize_of filetime))))"
    unfolding d 6 by simp
  have 7: "int (length wav) = 44 + uint (rd32 wav 40)" if "44 + 2 * length wavebuff \<le> n"
    unfolding d using that by (simp add: wav_def length_wav_file [OF ws])
  from 1 2 3 4 5 6 7 show ?thesis by blast
qed

theorem riff_chunk_size_witness:
  "read_and_validate exact [''wavdump'', ''a.wav'', ''1'', ''440''] = Inr (''a.wav'', 1, [440]) \<and>
   synthesize exact 1 [440] = Inr (projr (synthesize exact 1 [440])) \<and>
   (44 :: nat) \<le> 88244 \<and>
   44 + 2 * length (projr (synthesize exact 1 [440])) \<le> 88244 \<and>
   (\<exists>wav. main exact (Some 88244) [''wavdump'', ''a.wav'', ''1'', ''440''] = Returned 0 wav \<and>
      uint (rd32 wav 40) = 88200 \<and> uint (rd32 wav 4) = 88236 \<and> length wav = 88244)"
proof -
  have n: "(44 :: nat) \<le> 88244" by simp
  have m: "44 + 2 * length (projr (synthesize exact 1 [440])) \<le> 88244"
    unfolding synthesize_1_440(2) by simp
  from riff_chunk_size [OF request_1_440 synthesize_1_440(1) n]
  obtain wav where f: "main exact (Some 88244) [''wavdump'', ''a.wav'', ''1'', ''440''] = Returned 0 wav"
    "uint (rd32 wav 4) = 36 + uint (rd32 wav 40)"
    "uint (rd32 wav 40) = int (length (wavebuff_bytes (projr (synthesize exact 1 [440])) (nat (wavesize_of 1))))"
    "length (wavebuff_bytes (projr (synthesize exact 1 [440])) (nat (wavesize_of 1)))
       = 2 * length (projr (synthesize exact 1 [440]))"
    "44 + 2 * length (projr (synthesize exact 1 [440])) \<le> 88244 \<longrightarrow>
       int (length wav) = 44 + uint (rd32 wav 40)"
    by blast
  have a: "uint (rd32 wav 40) = 88200" unfolding f(3) f(4) synthesize_1_440(2) by simp
  then have b: "uint (rd32 wav 4) = 88236" unfolding f(2) by simp
  from f(5) m a have "int (length wav) = 88244" by simp
  then have c: "length wav = 88244" by linarith
  from request_1_440 synthesize_1_440(1) n m f(1) a b c show ?thesis by blast
qed

text \<open>
  C7, as amended. A file that cannot be opened is reported (lines 193-201). Once the
  file is open nothing is: the results of the four calls of \<^verbatim>\<open>fwrite\<close> are
  discarded, and \<^verbatim>\<open>main\<close> returns 0 with whatever prefix of the file the device
  accepted, whether that is all \<open>44 + 2 \<times> length\<close> bytes or fewer. The claim as
  stated has a failed write reported to the caller; with room for 10 bytes the first
  \<^verbatim>\<open>fwrite\<close> returns 10 for a block of 12, and the run still returns 0.
\<close>

theorem write_failures_unreported:
  assumes rv: "read_and_validate p argv = Inr (filename, filetime, freqbuff)"
    and syn: "synthesize p filetime freqbuff = Inr wavebuff"
  shows "main p None argv = CannotOpen filename \<and>
         main p (Some n) argv = Returned 0 (take n (wav_file (wavesize_of filetime) wavebuff)) \<and>
         length (wav_file (wavesize_of filetime) wavebuff) = 44 + 2 * length wavebuff"
  using main_returns [OF rv syn] length_wav_file [OF synthesize_Inr(1) [OF syn]] by simp

theorem write_failures_unreported_witness:
  "read_and_validate exact [''wavdump'', ''a.wav'', ''1'', ''440''] = Inr (''a.wav'', 1, [440]) \<and>
   synthesize exact 1 [440] = Inr (projr (synthesize exact 1 [440])) \<and>
   main exact None [''wavdump'', ''a.wav'', ''1'', ''440''] = CannotOpen ''a.wav'' \<and>
   main exact (Some 50000) [''wavdump'', ''a.wav'', ''1'', ''440''] =
     Returned 0 (take 50000 (wav_file (wavesize_of 1) (projr (synthesize exact 1 [440])))) \<and>
   length (wav_file (wavesize_of 1) (projr (synthesize exact 1 [440]))) = 88244"
proof -
  note inst = write_failures_unreported [OF request_1_440 synthesize_1_440(1), of 50000]
  then have "length (wav_file (wavesize_of 1) (projr (synthesize exact 1 [440]))) = 88244"
    unfolding synthesize_1_440(2) by simp
  with inst request_1_440 synthesize_1_440(1) show ?thesis by blast
qed

theorem short_write_returns_0_counterexample:
  "length (riffhead_bytes (riffhead (wavesize_of 1))) = 12 \<and>
   fst (fwrite (riffhead_bytes (riffhead (wavesize_of 1))) \<lparr> written = [], room = 10 \<rparr>) = 10 \<and>
   main exact (Some 10) [''wavdump'', ''a.wav'', ''1'', ''440''] =
     Returned 0 [82, 73, 70, 70, 172, 88, 1, 0, 87, 65]"
proof -
  have ws: "wavesize_of 1 = 88200"
    by (simp add: wavesize_of_def wavechnl_def wavebits_def waverate_eq)
  have r: "riffhead_bytes (riffhead (wavesize_of 1)) = [82, 73, 70, 70, 172, 88, 1, 0, 87, 65, 86, 69]"
    unfolding ws by (simp add: riffhead_image le32_def)
  have a: "length (riffhead_bytes (riffhead (wavesize_of 1))) = 12" unfolding r by simp
  have b: "fst (fwrite (riffhead_bytes (riffhead (wavesize_of 1))) \<lparr> written = [], room = 10 \<rparr>) = 10"
    unfolding r by (simp add: fwrite_def)
  have "take 10 (wav_file (wavesize_of 1) (projr (synthesize exact 1 [440]))) =
      [82, 73, 70, 70, 172, 88, 1, 0, 87, 65]"
    unfolding wav_file_def r by simp
  with main_returns(1) [OF request_1_440 synthesize_1_440(1), of 10]
  have "main exact (Some 10) [''wavdump'', ''a.wav'', ''1'', ''440''] =
      Returned 0 [82, 73, 70, 70, 172, 88, 1, 0, 87, 65]" by simp
  with a b show ?thesis by blast
qed

section \<open>The two-harmonic scenario\<close>

subsection \<open>The sines of \<open>\<pi>/5\<close> and \<open>2\<pi>/5\<close>\<close>

text \<open>
  With the frequencies 440 and 880, sample 1323 of a second falls on the phases
  \<open>2\<pi>/5\<close> and \<open>4\<pi>/5\<close>, whose sines are algebraic: \<open>cos (\<pi>/5)\<close> is the positive root
  of \<open>4x\<^sup>2 - 2x - 1\<close>, which encloses it, and the sines follow from it.
\<close>

lemma cos_pi5_quadratic: "4 * (cos (pi / 5))\<^sup>2 - 2 * cos (pi / 5) - 1 = 0"
proof -
  define t where "t = pi / 5"
  define s where "s = sin t"
  define c where "c = cos t"
  have t: "0 < t" "t < pi" by (simp_all add: t_def)
  then have s0: "0 < s" unfolding s_def by (rule sin_gt_zero)
  have "3 * t = pi - 2 * t" by (simp add: t_def)
  then have "sin (3 * t) = sin (2 * t)" by (simp only: sin_pi_minus)
  moreover have "sin (3 * t) = sin (2 * t + t)" by (simp add: algebra_simps)
  ultimately have "sin (2 * t) * cos t + cos (2 * t) * sin t = sin (2 * t)"
    by (simp only: sin_add)
  then have "2 * s * c * c + (2 * c\<^sup>2 - 1) * s = 2 * s * c"
    by (simp only: sin_double cos_double_cos s_def c_def)
  then have "s * (4 * c\<^sup>2 - 2 * c - 1) = 0"
    by (simp add: algebra_simps power2_eq_square)
  with s0 have "4 * c\<^sup>2 - 2 * c - 1 = 0" by simp
  then show ?thesis by (simp add: c_def t_def)
qed

lemma cos_pi5_bounds: "8090169 / 10000000 < cos (pi / 5)" "cos (pi / 5) < 809017 / 1000000"
proof -
  define c where "c = cos (pi / 5)"
  have c0: "0 < c" unfolding c_def by (rule cos_gt_zero) simp_all
  have q: "4 * c\<^sup>2 - 2 * c - 1 = 0" unfolding c_def by (rule cos_pi5_quadratic)
  have diff: "4 * c\<^sup>2 - 2 * c - 1 - (4 * a\<^sup>2 - 2 * a - 1) = (c - a) * (4 * (c + a) - 2)" for a :: real
    by (simp add: algebra_simps power2_eq_square)
  have lo: "(c - 8090169 / 10000000) * (4 * (c + 8090169 / 10000000) - 2) > 0"
    unfolding diff [symmetric] q by (simp add: power2_eq_square)
  have "4 * (c + 8090169 / 10000000) - 2 > 0" using c0 by simp
  with lo have "c - 8090169 / 10000000 > 0" by (simp add: zero_less_mult_iff)
  then show "8090169 / 10000000 < cos (pi / 5)" by (simp add: c_def)
  have hi: "(c - 809017 / 1000000) * (4 * (c + 809017 / 1000000) - 2) < 0"
    unfolding diff [symmetric] q by (simp add: power2_eq_square)
  have "4 * (c + 809017 / 1000000) - 2 > 0" using c0 by simp
  with hi have "c - 809017 / 1000000 < 0" by (simp add: mult_less_0_iff)
  then show "cos (pi / 5) < 809017 / 1000000" by (simp add: c_def)
qed

lemma square_less_imp_less: "0 \<le> (b::real) \<Longrightarrow> a * a < b * b \<Longrightarrow> a < b"
  by (metis power2_eq_square power2_less_imp_less)

lemma sin_pi5_bounds: "5877852 / 10000000 < sin (pi / 5)" "sin (pi / 5) < 58779 / 100000"
proof -
  define c where "c = cos (pi / 5)"
  define s where "s = sin (pi / 5)"
  have s0: "0 < s" unfolding s_def by (rule sin_gt_zero) simp_all
  have "s\<^sup>2 = 1 - c\<^sup>2" unfolding s_def c_def by (rule sin_squared_eq)
  then have sc: "s * s = 1 - c * c" by (simp only: power2_eq_square)
  note cb = cos_pi5_bounds [folded c_def]
  have c0: "0 < c" using cb(1) by simp
  have "c * c < (809017 / 1000000) * (809017 / 1000000)"
    using cb(2) c0 by (intro mult_strict_mono) simp_all
  then have "(5877852 / 10000000) * (5877852 / 10000000) < s * s"
    unfolding sc by simp
  moreover have "0 \<le> s" using s0 by simp
  ultimately have "5877852 / 10000000 < s"
    by (rule square_less_imp_less [rotated])
  then show "5877852 / 10000000 < sin (pi / 5)" by (simp only: s_def)
  have "(8090169 / 10000000) * (8090169 / 10000000) < c * c"
    using cb(1) by (intro mult_strict_mono) simp_all
  then have "s * s < (58779 / 100000) * (58779 / 100000)"
    unfolding sc by simp
  then have "s < 58779 / 100000"
    by (rule square_less_imp_less [rotated]) simp
  then show "sin (pi / 5) < 58779 / 100000" by (simp only: s_def)
qed

lemma sin_2pi5_bounds: "951056 / 1000000 < sin (2 * pi / 5)" "sin (2 * pi / 5) < 9511 / 10000"
proof -
  define c where "c = cos (pi / 5)"
  define s where "s = sin (pi / 5)"
  have "sin (2 * (pi / 5)) = 2 * s * c" unfolding s_def c_def by (rule sin_double)
  then have eq: "sin (2 * pi / 5) = 2 * (s * c)" by simp
  note cb = cos_pi5_bounds [folded c_def]
  note sb = sin_pi5_bounds [folded s_def]
  have "(5877852 / 10000000) * (8090169 / 10000000) < s * c"
    using cb(1) sb(1) by (intro mult_strict_mono) simp_all
  then show "951056 / 1000000 < sin (2 * pi / 5)" unfolding eq by simp
  have "0 < s" using sb(1) by simp
  moreover have "0 < c" using cb(1) by simp
  ultimately have "s * c < (58779 / 100000) * (809017 / 1000000)"
    using cb(2) sb(2) by (intro mult_strict_mono) simp_all
  then show "sin (2 * pi / 5) < 9511 / 10000" unfolding eq by simp
qed

subsection \<open>Sample 1323, by the code and by the specification's formula\<close>

lemma amplitude_2: "unat (amplitude 2) = 16382"
  by (simp add: amplitude_def)

lemma sample_two:
  assumes g: "good_platform p"
  shows "sample p [f1, f2] j =
    Inr (trunc (f32 p (real_of_int (trunc (f32 p (harmonic p 2 f1 j))) + harmonic p 2 f2 j)))"
proof -
  define x1 where "x1 = f32 p (harmonic p 2 f1 j)"
  define x2 where "x2 = f32 p (real_of_int (trunc x1) + harmonic p 2 f2 j)"
  from harmonic_bound [OF g, of 2 f1 j]
  have h1: "real_of_int (- 16382) \<le> harmonic p 2 f1 j" "harmonic p 2 f1 j \<le> real_of_int 16382"
    by (simp_all add: amplitude_2)
  from harmonic_bound [OF g, of 2 f2 j]
  have h2: "- 16382 \<le> harmonic p 2 f2 j" "harmonic p 2 f2 j \<le> 16382"
    by (simp_all add: amplitude_2)
  have "real_of_int (- 16382) \<le> x1 \<and> x1 \<le> real_of_int 16382"
    unfolding x1_def by (rule f32_between [OF g h1]) simp_all
  then have t1: "- 16382 \<le> trunc x1 \<and> trunc x1 \<le> 16382"
    by (intro trunc_between) simp_all
  then have s1: "to_short x1 = Inr (trunc x1)" by (simp add: to_short_def)
  have b2: "real_of_int (trunc x1 - 16382) \<le> real_of_int (trunc x1) + harmonic p 2 f2 j"
    "real_of_int (trunc x1) + harmonic p 2 f2 j \<le> real_of_int (trunc x1 + 16382)"
    using h2 by simp_all
  have "real_of_int (trunc x1 - 16382) \<le> x2 \<and> x2 \<le> real_of_int (trunc x1 + 16382)"
    unfolding x2_def using t1 by (intro f32_between [OF g b2]) simp_all
  then have "trunc x1 - 16382 \<le> trunc x2 \<and> trunc x2 \<le> trunc x1 + 16382"
    by (intro trunc_between) simp_all
  with t1 have s2: "to_short x2 = Inr (trunc x2)" by (simp add: to_short_def)
  have "sample p [f1, f2] j = Inr (trunc x2)"
    using s1 s2 by (simp add: sample_def x1_def [symmetric] x2_def [symmetric])
  then show ?thesis by (simp only: x1_def x2_def)
qed

lemma harmonic_exact: "harmonic exact 2 f j = sin (2 * pi * real (unat f) * real j / 44100) * 16382"
  by (simp add: harmonic_def sine_arg_def exact_def waverate_eq amplitude_2)

lemma sin_plus_even_pi:
  "sin (x + 26 * pi) = sin x" "sin (x + 52 * pi) = sin x"
  by (simp_all add: sin_add)

lemma sin_440_at_1323:
  "sin (2 * pi * real (unat (440 :: uint)) * real (1323 :: nat) / 44100) = sin (2 * pi / 5)"
proof -
  have "2 * pi * real (unat (440 :: uint)) * real (1323 :: nat) / 44100 = 2 * pi / 5 + 26 * pi"
    by simp
  then show ?thesis by (simp only: sin_plus_even_pi)
qed

lemma sin_880_at_1323:
  "sin (2 * pi * real (unat (880 :: uint)) * real (1323 :: nat) / 44100) = sin (pi / 5)"
proof -
  have "2 * pi * real (unat (880 :: uint)) * real (1323 :: nat) / 44100 = (pi - pi / 5) + 52 * pi"
    by simp
  then have "sin (2 * pi * real (unat (880 :: uint)) * real (1323 :: nat) / 44100) = sin (pi - pi / 5)"
    by (simp only: sin_plus_even_pi)
  also have "\<dots> = sin (pi / 5)" by (rule sin_pi_minus)
  finally show ?thesis .
qed

lemma trunc_eq: "real_of_int k \<le> x \<Longrightarrow> x < real_of_int k + 1 \<Longrightarrow> 0 \<le> k \<Longrightarrow> trunc x = k"
  unfolding trunc_def by (simp add: floor_unique)

lemma sample_at_1323: "sample exact [440, 880] 1323 = Inr 25209"
proof -
  define a where "a = sin (2 * pi / 5) * 16382"
  define b where "b = sin (pi / 5) * 16382"
  have a: "15580 \<le> a" "a < 15581"
    using sin_2pi5_bounds by (simp_all add: a_def)
  have b: "9629 \<le> b" "b < 9630"
    using sin_pi5_bounds by (simp_all add: b_def)
  have ta: "trunc a = 15580" using a by (intro trunc_eq) simp_all
  have tb: "trunc (15580 + b) = 25209" using b by (intro trunc_eq) simp_all
  have "sample exact [440, 880] 1323 =
      Inr (trunc (real_of_int (trunc (harmonic exact 2 440 1323)) + harmonic exact 2 880 1323))"
    using sample_two [OF good_exact, of 440 880 1323] by (simp add: exact_def)
  also have "harmonic exact 2 440 1323 = a"
    unfolding harmonic_exact sin_440_at_1323 a_def ..
  also have "harmonic exact 2 880 1323 = b"
    unfolding harmonic_exact sin_880_at_1323 b_def ..
  finally show ?thesis by (simp add: ta tb)
qed

lemma spec_sample_at_1323: "spec_sample [440, 880] 1323 = 25210"
proof -
  have 1: "sin (2 * pi * real (440 :: nat) * (real (1323 :: nat) / 44100)) = sin (2 * pi / 5)"
    using sin_440_at_1323 by simp
  have 2: "sin (2 * pi * real (880 :: nat) * (real (1323 :: nat) / 44100)) = sin (pi / 5)"
    using sin_880_at_1323 by simp
  define x where "x = sin (2 * pi / 5) * (32765 / 2) + sin (pi / 5) * (32765 / 2)"
  have "spec_sample [440, 880] 1323 = trunc x"
    unfolding spec_sample_def x_def by (simp only: list.map sum_list.Cons sum_list.Nil 1 2) simp
  moreover have "25210 \<le> x" "x < 25210 + 1"
    using sin_2pi5_bounds sin_pi5_bounds by (simp_all add: x_def)
  then have "trunc x = 25210" by (intro trunc_eq) simp_all
  ultimately show ?thesis by simp
qed

lemma sin_minus_even_pi:
  "sin (x + 18 * pi) = sin x" "sin (x + 36 * pi) = sin x"
  by (simp_all add: sin_add)

lemma sin_440_at_882:
  "sin (2 * pi * real (unat (440 :: uint)) * real (882 :: nat) / 44100) = - sin (2 * pi / 5)"
proof -
  have "2 * pi * real (unat (440 :: uint)) * real (882 :: nat) / 44100 = - (2 * pi / 5) + 18 * pi"
    by simp
  then have "sin (2 * pi * real (unat (440 :: uint)) * real (882 :: nat) / 44100) = sin (- (2 * pi / 5))"
    by (simp only: sin_minus_even_pi)
  also have "\<dots> = - sin (2 * pi / 5)" by (rule sin_minus)
  finally show ?thesis .
qed

lemma sin_880_at_882:
  "sin (2 * pi * real (unat (880 :: uint)) * real (882 :: nat) / 44100) = - sin (pi / 5)"
proof -
  have "2 * pi * real (unat (880 :: uint)) * real (882 :: nat) / 44100 = - (pi - pi / 5) + 36 * pi"
    by simp
  then have "sin (2 * pi * real (unat (880 :: uint)) * real (882 :: nat) / 44100) = sin (- (pi - pi / 5))"
    by (simp only: sin_minus_even_pi)
  also have "\<dots> = - sin (pi - pi / 5)" by (rule sin_minus)
  also have "\<dots> = - sin (pi / 5)" by (simp only: sin_pi_minus)
  finally show ?thesis .
qed

lemma trunc_eq_neg:
  "x \<le> real_of_int k \<Longrightarrow> real_of_int k - 1 < x \<Longrightarrow> k \<le> 0 \<Longrightarrow> x < 0 \<Longrightarrow> trunc x = k"
  unfolding trunc_def by (simp add: ceiling_unique)

lemma sample_at_882: "sample exact [440, 880] 882 = Inr (- 25209)"
proof -
  define a where "a = - sin (2 * pi / 5) * 16382"
  define b where "b = - sin (pi / 5) * 16382"
  have a: "a \<le> - 15580" "- 15581 < a"
    using sin_2pi5_bounds by (simp_all add: a_def)
  have b: "b \<le> - 9629" "- 9630 < b"
    using sin_pi5_bounds by (simp_all add: b_def)
  have ta: "trunc a = - 15580" using a by (intro trunc_eq_neg) simp_all
  have tb: "trunc (b - 15580) = - 25209" using b by (intro trunc_eq_neg) simp_all
  have "sample exact [440, 880] 882 =
      Inr (trunc (real_of_int (trunc (harmonic exact 2 440 882)) + harmonic exact 2 880 882))"
    using sample_two [OF good_exact, of 440 880 882] by (simp add: exact_def)
  also have "harmonic exact 2 440 882 = a"
    unfolding harmonic_exact sin_440_at_882 a_def ..
  also have "harmonic exact 2 880 882 = b"
    unfolding harmonic_exact sin_880_at_882 b_def ..
  finally show ?thesis by (simp add: ta tb)
qed

lemma spec_sample_at_882: "spec_sample [440, 880] 882 = - 25210"
proof -
  have 1: "sin (2 * pi * real (440 :: nat) * (real (882 :: nat) / 44100)) = - sin (2 * pi / 5)"
    using sin_440_at_882 by simp
  have 2: "sin (2 * pi * real (880 :: nat) * (real (882 :: nat) / 44100)) = - sin (pi / 5)"
    using sin_880_at_882 by simp
  define x where "x = - sin (2 * pi / 5) * (32765 / 2) + - sin (pi / 5) * (32765 / 2)"
  have "spec_sample [440, 880] 882 = trunc x"
    unfolding spec_sample_def x_def by (simp only: list.map sum_list.Cons sum_list.Nil 1 2) simp
  moreover have "x \<le> - 25210" "- 25210 - 1 < x"
    using sin_2pi5_bounds sin_pi5_bounds by (simp_all add: x_def)
  then have "trunc x = - 25210" by (intro trunc_eq_neg) simp_all
  ultimately show ?thesis by simp
qed

subsection \<open>The claim\<close>

text \<open>
  C1. The claim: for the frequencies 440 and 880 and a duration of one second, every
  sample is the real sum \<open>sin (2\<pi> 440 t) \<times> 32765/2 + sin (2\<pi> 880 t) \<times> 32765/2\<close>,
  truncated once. The comment of lines 130-140 says as much: the sample is the mean of
  the harmonics, and dividing each harmonic before adding gives ``the same result''.
  The code does not compute that: line 147 divides 32765 by \<open>freqsize\<close> as integers,
  which gives 16382, and stores the sum in the 16-bit sample after every harmonic
  (lemma \<open>sample_two\<close>). Already in exact arithmetic, sample 1323 is 25209 where the
  claimed formula gives 25210, and sample 882 is -25209 where it gives -25210.
\<close>

theorem two_harmonics_samples_differ:
  "\<not> isl (synthesize exact 1 [440, 880]) \<and>
   projr (synthesize exact 1 [440, 880]) ! 1323 = 25209 \<and>
   spec_sample [440, 880] 1323 = 25210 \<and>
   projr (synthesize exact 1 [440, 880]) ! 882 = - 25209 \<and>
   spec_sample [440, 880] 882 = - 25210 \<and>
   synthesize exact 1 [440, 880] \<noteq> Inr (map (spec_sample [440, 880]) [0 ..< 44100])"
proof -
  have len: "length [440, 880 :: uint] < 2 ^ 32" and t: "unat (1 :: uint) \<le> 24347" by simp_all
  from synthesize_ok [OF good_exact len t] obtain w where
    w: "synthesize exact 1 [440, 880] = Inr w" and l: "length w = 44100"
    and s: "\<forall>n < length w. sample exact [440, 880] (n mod 44100) = Inr (w ! n)"
    by auto
  from s l have "sample exact [440, 880] (1323 mod 44100) = Inr (w ! 1323)" by simp
  then have a: "w ! 1323 = 25209" by (simp add: sample_at_1323)
  from s l have "sample exact [440, 880] (882 mod 44100) = Inr (w ! 882)" by simp
  then have a': "w ! 882 = - 25209" by (simp add: sample_at_882)
  have b: "map (spec_sample [440, 880]) [0 ..< 44100] ! 1323 = 25210"
    by (simp add: spec_sample_at_1323)
  from a b have "w \<noteq> map (spec_sample [440, 880]) [0 ..< 44100]" by auto
  with a a' w show ?thesis by (simp add: spec_sample_at_1323 spec_sample_at_882)
qed

end
